theory Spec2Isabelle
  imports Main "HOL-Library.Word"
begin

section \<open>PackFile.h: the container reader of gw2formats\<close>

text \<open>
  The embedding follows \<^verbatim>\<open>include/gw2formats/pf/PackFile.h\<close>. The class template
  \<^verbatim>\<open>PackFile<TFileType>\<close> becomes a family of functions that take the template argument
  \<^verbatim>\<open>TFileType\<close> as their first parameter. The object state is a record of the two members
  \<^verbatim>\<open>m_data\<close> and \<^verbatim>\<open>m_header\<close>; the \<^verbatim>\<open>std::vector\<close> that \<^verbatim>\<open>m_data\<close> shares lives
  in an explicit store together with its use count, so that copies of a PackFile alias.
\<close>

subsection \<open>Bytes, machine integers and packed structures\<close>

type_synonym byte = "8 word"
type_synonym uint8 = "8 word"
type_synonym uint16 = "16 word"
type_synonym uint32 = "32 word"
type_synonym dword = "32 word"

text \<open>
  The undefined behaviours of the C++ that the model makes visible: dereferencing a null
  \<^verbatim>\<open>shared_ptr\<close>, reading a vector that has been freed, and reading outside a block of bytes.
\<close>

datatype error = NullDeref | UseAfterFree | OutOfBounds

text \<open>Unsigned little-endian reads (the structures are packed, the targets are x86).\<close>

definition rd_uint8 :: "byte list \<Rightarrow> nat \<Rightarrow> uint8 option" where
  "rd_uint8 bs off = (if off + 1 \<le> length bs then Some (bs ! off) else None)"

definition rd_uint16 :: "byte list \<Rightarrow> nat \<Rightarrow> uint16 option" where
  "rd_uint16 bs off =
     (if off + 2 \<le> length bs
      then Some (word_of_nat (unat (bs ! off) + 256 * unat (bs ! (off + 1))))
      else None)"

definition rd_uint32 :: "byte list \<Rightarrow> nat \<Rightarrow> uint32 option" where
  "rd_uint32 bs off =
     (if off + 4 \<le> length bs
      then Some (word_of_nat (unat (bs ! off) + 256 * unat (bs ! (off + 1))
                   + 65536 * unat (bs ! (off + 2)) + 16777216 * unat (bs ! (off + 3))))
      else None)"

text \<open>\<^verbatim>\<open>struct FileHeader\<close>, 12 bytes under \<^verbatim>\<open>#pragma pack(push, 1)\<close>.\<close>

record FileHeader =
  magic :: "uint8 list"
  descriptorType :: uint16
  zero :: uint16
  headerSize :: uint16
  contentType :: uint32

text \<open>\<^verbatim>\<open>struct ChunkHeader\<close>, 16 bytes.\<close>

record ChunkHeader =
  magic :: uint32
  nextChunkOffset :: uint32
  version :: uint16
  headerSize :: uint16
  descriptorOffset :: uint32

definition sizeof_FileHeader :: nat where
  "sizeof_FileHeader = 12"

definition sizeof_ChunkHeader :: nat where
  "sizeof_ChunkHeader = 16"

text \<open>\<^verbatim>\<open>offsetof(ChunkHeader, nextChunkOffset)\<close> and \<^verbatim>\<open>sizeof(chunkHead->nextChunkOffset)\<close>.\<close>

definition offsetof_nextChunkOffset :: nat where
  "offsetof_nextChunkOffset = 4"

definition sizeof_nextChunkOffset :: nat where
  "sizeof_nextChunkOffset = 4"

text \<open>
  \<^verbatim>\<open>reinterpret_cast<const FileHeader*>(p)\<close> followed by field reads: the structure found
  at offset \<open>off\<close> of a block, \<open>None\<close> when it does not lie inside the block.
\<close>

definition cast_FileHeader :: "byte list \<Rightarrow> nat \<Rightarrow> FileHeader option" where
  "cast_FileHeader bs off =
     (case (rd_uint8 bs off, rd_uint8 bs (off + 1), rd_uint16 bs (off + 2),
            rd_uint16 bs (off + 4), rd_uint16 bs (off + 6), rd_uint32 bs (off + 8)) of
        (Some m0, Some m1, Some dt, Some z, Some hs, Some ct) \<Rightarrow>
          Some \<lparr>FileHeader.magic = [m0, m1], descriptorType = dt, zero = z,
                FileHeader.headerSize = hs, contentType = ct\<rparr>
      | _ \<Rightarrow> None)"

definition cast_ChunkHeader :: "byte list \<Rightarrow> nat \<Rightarrow> ChunkHeader option" where
  "cast_ChunkHeader bs off =
     (case (rd_uint32 bs off, rd_uint32 bs (off + 4), rd_uint16 bs (off + 8),
            rd_uint16 bs (off + 10), rd_uint32 bs (off + 12)) of
        (Some m, Some nco, Some v, Some hs, Some d) \<Rightarrow>
          Some \<lparr>ChunkHeader.magic = m, nextChunkOffset = nco, version = v,
                ChunkHeader.headerSize = hs, descriptorOffset = d\<rparr>
      | _ \<Rightarrow> None)"

subsection \<open>The store: vectors shared through \<^verbatim>\<open>std::shared_ptr\<close>\<close>

text \<open>
  A \<^verbatim>\<open>std::shared_ptr<DataVector>\<close> is an address (or null); the store maps an address to
  the vector and its use count. A freed cell is \<open>None\<close>. A pointer into a vector's bytes is
  the vector's address and a byte offset; \<open>None\<close> is \<^verbatim>\<open>nullptr\<close>.
\<close>

type_synonym addr = nat
type_synonym DataVector = "byte list"
type_synonym store = "(DataVector \<times> nat) option list"
type_synonym pointer = "(addr \<times> nat) option"

definition cell_at :: "store \<Rightarrow> addr \<Rightarrow> (DataVector \<times> nat) option" where
  "cell_at s a = (if a < length s then s ! a else None)"

text \<open>\<^verbatim>\<open>shared_ptr(new DataVector(...))\<close>: a fresh cell with use count 1.\<close>

definition new_DataVector :: "store \<Rightarrow> DataVector \<Rightarrow> addr \<times> store" where
  "new_DataVector s v = (length s, s @ [Some (v, 1)])"

text \<open>Copying a \<^verbatim>\<open>shared_ptr\<close> adds an owner; a null pointer owns nothing.\<close>

definition acquire :: "store \<Rightarrow> addr option \<Rightarrow> store" where
  "acquire s p =
     (case p of
        None \<Rightarrow> s
      | Some a \<Rightarrow> (case cell_at s a of
                    None \<Rightarrow> s
                  | Some (v, n) \<Rightarrow> s[a := Some (v, Suc n)]))"

text \<open>Dropping a \<^verbatim>\<open>shared_ptr\<close> removes an owner; the last one destroys the vector.\<close>

definition release :: "store \<Rightarrow> addr option \<Rightarrow> store" where
  "release s p =
     (case p of
        None \<Rightarrow> s
      | Some a \<Rightarrow> (case cell_at s a of
                    None \<Rightarrow> s
                  | Some (v, n) \<Rightarrow> if n \<le> 1 then s[a := None] else s[a := Some (v, n - 1)]))"

text \<open>\<^verbatim>\<open>std::memcpy(m_data->data(), p_data, p_size)\<close> into the vector at \<open>a\<close>.\<close>

definition memcpy_to :: "store \<Rightarrow> addr \<Rightarrow> byte list \<Rightarrow> nat \<Rightarrow> error + store" where
  "memcpy_to s a src n =
     (case cell_at s a of
        None \<Rightarrow> Inl UseAfterFree
      | Some (v, c) \<Rightarrow>
          if length src < n \<or> length v < n then Inl OutOfBounds
          else Inr (s[a := Some (take n src @ drop n v, c)]))"

subsection \<open>The class \<^verbatim>\<open>PackFile<TFileType>\<close>\<close>

record PackFile =
  m_data :: "addr option"
  m_header :: pointer

text \<open>\<^verbatim>\<open>PackFile()\<close>: a new empty vector and no header.\<close>

definition PackFile_default :: "store \<Rightarrow> store \<times> PackFile" where
  "PackFile_default s =
     (case new_DataVector s [] of
        (a, s') \<Rightarrow> (s', \<lparr>m_data = Some a, m_header = None\<rparr>))"

text \<open>
  The test \<^verbatim>\<open>m_data->size()\<close> and the cast of \<^verbatim>\<open>m_data->data()\<close> that the copy
  constructor and the copy assignment share.
\<close>

definition header_of_data :: "store \<Rightarrow> addr option \<Rightarrow> error + pointer" where
  "header_of_data s p =
     (case p of
        None \<Rightarrow> Inl NullDeref
      | Some a \<Rightarrow> (case cell_at s a of
                    None \<Rightarrow> Inl UseAfterFree
                  | Some (v, n) \<Rightarrow> Inr (if length v \<noteq> 0 then Some (a, 0) else None)))"

text \<open>\<^verbatim>\<open>PackFile(const PackFile& p_other)\<close>.\<close>

definition PackFile_copy :: "store \<Rightarrow> PackFile \<Rightarrow> error + store \<times> PackFile" where
  "PackFile_copy s p_other =
     (let s' = acquire s (m_data p_other) in
      case header_of_data s' (m_data p_other) of
        Inl e \<Rightarrow> Inl e
      | Inr h \<Rightarrow> Inr (s', \<lparr>m_data = m_data p_other, m_header = h\<rparr>))"

text \<open>
  \<^verbatim>\<open>PackFile& operator=(const PackFile& p_other)\<close>: the \<^verbatim>\<open>shared_ptr\<close> assignment takes
  the new share before it drops the old one.
\<close>

definition operator_assign :: "store \<Rightarrow> PackFile \<Rightarrow> PackFile \<Rightarrow> error + store \<times> PackFile" where
  "operator_assign s this p_other =
     (let s' = release (acquire s (m_data p_other)) (m_data this) in
      case header_of_data s' (m_data p_other) of
        Inl e \<Rightarrow> Inl e
      | Inr h \<Rightarrow> Inr (s', \<lparr>m_data = m_data p_other, m_header = h\<rparr>))"

text \<open>
  The argument \<^verbatim>\<open>const byte* p_data\<close> of \<^verbatim>\<open>assign\<close>: the null pointer, a pointer to a
  block of bytes outside the store (the block is given), or a pointer into the vector at an
  address of the store, at a byte offset (a chunk view handed back to the PackFile, say).
\<close>

datatype source = Nullptr | Outside "byte list" | Inside addr nat

text \<open>
  The bytes that can be read through the pointer in the store as it is now. Reading through
  a pointer into a vector that has been destroyed is a use after free.
\<close>

definition deref :: "store \<Rightarrow> source \<Rightarrow> error + byte list" where
  "deref s p =
     (case p of
        Nullptr \<Rightarrow> Inl NullDeref
      | Outside src \<Rightarrow> Inr src
      | Inside a off \<Rightarrow>
          (case cell_at s a of
             None \<Rightarrow> Inl UseAfterFree
           | Some (v, n) \<Rightarrow> if off \<le> length v then Inr (drop off v) else Inl OutOfBounds))"

text \<open>
  \<^verbatim>\<open>bool assign(const byte* p_data, uint32 p_size)\<close>. The header is read through
  \<open>p_data\<close> before anything changes. Then \<^verbatim>\<open>m_data.reset(new DataVector(p_size))\<close> makes the
  new vector and drops the share of the old one, which destroys the old vector when this
  PackFile was its only owner; only then \<^verbatim>\<open>memcpy\<close> reads the \<open>p_size\<close> bytes through
  \<open>p_data\<close>. The result is the returned flag with the store and the object after the call.
\<close>

definition assign ::
  "uint32 \<Rightarrow> store \<Rightarrow> PackFile \<Rightarrow> source \<Rightarrow> uint32 \<Rightarrow> error + bool \<times> store \<times> PackFile" where
  "assign TFileType s this p_data p_size =
     (if p_data = Nullptr then Inr (False, s, this)
      else if p_size = 0 then Inr (False, s, this)
      else if unat p_size < sizeof_FileHeader then Inr (False, s, this)
      else (case deref s p_data of
              Inl e \<Rightarrow> Inl e
            | Inr src \<Rightarrow>
               (case cast_FileHeader src 0 of
                  None \<Rightarrow> Inl OutOfBounds
                | Some header \<Rightarrow>
                    if FileHeader.magic header ! 0 \<noteq> 0x50 \<or> FileHeader.magic header ! 1 \<noteq> 0x46
                    then Inr (False, s, this)
                    else if contentType header \<noteq> TFileType then Inr (False, s, this)
                    else (case new_DataVector s (replicate (unat p_size) 0) of
                            (a, s1) \<Rightarrow>
                              (let s2 = release s1 (m_data this) in
                               case deref s2 p_data of
                                 Inl e \<Rightarrow> Inl e
                               | Inr src' \<Rightarrow>
                                   (case memcpy_to s2 a src' (unat p_size) of
                                      Inl e \<Rightarrow> Inl e
                                    | Inr s3 \<Rightarrow>
                                        Inr (True, s3, \<lparr>m_data = Some a, m_header = Some (a, 0)\<rparr>)))))))"

text \<open>
  \<^verbatim>\<open>bool load(const char* p_filename)\<close>. The file system is a map from file names to
  contents (\<open>None\<close> for a file that cannot be opened); the size of the file is narrowed to
  \<^verbatim>\<open>uint32\<close> as the code does. The buffer \<^verbatim>\<open>data\<close> is a local vector, outside the store of
  the shared vectors. For an empty file \<^verbatim>\<open>data.data()\<close> may or may not be null;
  \<^verbatim>\<open>assign\<close> rejects the size 0 in both cases.
\<close>

definition load ::
  "uint32 \<Rightarrow> (string \<Rightarrow> byte list option) \<Rightarrow> store \<Rightarrow> PackFile \<Rightarrow> string
     \<Rightarrow> error + bool \<times> store \<times> PackFile" where
  "load TFileType fs s this p_filename =
     (case fs p_filename of
        None \<Rightarrow> Inr (False, s, this)
      | Some content \<Rightarrow>
          (let size' = (word_of_nat (length content) :: uint32);
               data = take (unat size') content
           in assign TFileType s this (Outside data) (word_of_nat (length data))))"

text \<open>\<^verbatim>\<open>PackFile(const byte* p_data, uint32 p_size)\<close>: \<^verbatim>\<open>m_data\<close> starts as a null pointer.\<close>

definition PackFile_data ::
  "uint32 \<Rightarrow> store \<Rightarrow> source \<Rightarrow> uint32 \<Rightarrow> error + store \<times> PackFile" where
  "PackFile_data TFileType s p_data p_size =
     (case assign TFileType s \<lparr>m_data = None, m_header = None\<rparr> p_data p_size of
        Inl e \<Rightarrow> Inl e
      | Inr (ok, s', this) \<Rightarrow> Inr (s', this))"

text \<open>\<^verbatim>\<open>PackFile(const char* p_filename)\<close>.\<close>

definition PackFile_file ::
  "uint32 \<Rightarrow> (string \<Rightarrow> byte list option) \<Rightarrow> store \<Rightarrow> string \<Rightarrow> error + store \<times> PackFile" where
  "PackFile_file TFileType fs s p_filename =
     (case load TFileType fs s \<lparr>m_data = None, m_header = None\<rparr> p_filename of
        Inl e \<Rightarrow> Inl e
      | Inr (ok, s', this) \<Rightarrow> Inr (s', this))"

text \<open>\<^verbatim>\<open>dword type() const\<close>.\<close>

definition type_of :: "uint32 \<Rightarrow> PackFile \<Rightarrow> dword" where
  "type_of TFileType this = (if m_header this \<noteq> None then TFileType else 0)"

subsection \<open>The chunk scan\<close>

text \<open>
  \<^verbatim>\<open>chunkSize\<close> is declared \<^verbatim>\<open>auto\<close> and its initialiser adds a \<^verbatim>\<open>uint32\<close> to two
  \<^verbatim>\<open>size_t\<close> values, so it is a \<^verbatim>\<open>size_t\<close>. The width \<open>W\<close> of \<^verbatim>\<open>size_t\<close> in bits is a
  parameter of the model: 64 on LP64 and LLP64 targets, 32 on ILP32 ones.
\<close>

definition chunkSize_of :: "nat \<Rightarrow> ChunkHeader \<Rightarrow> nat" where
  "chunkSize_of W chunkHead =
     (unat (nextChunkOffset chunkHead) + offsetof_nextChunkOffset + sizeof_nextChunkOffset) mod 2 ^ W"

text \<open>
  \<^verbatim>\<open>po_size = chunkSize - chunkHead->headerSize\<close>: a \<^verbatim>\<open>size_t\<close> subtraction (the
  \<^verbatim>\<open>uint16\<close> is promoted), narrowed to \<^verbatim>\<open>uint32\<close> by the assignment.
\<close>

definition po_size_of :: "nat \<Rightarrow> ChunkHeader \<Rightarrow> uint32" where
  "po_size_of W chunkHead =
     word_of_int ((int (chunkSize_of W chunkHead) - uint (ChunkHeader.headerSize chunkHead)) mod 2 ^ W)"

text \<open>
  Pointers into a vector are machine addresses of \<open>W\<close> bits. The layout \<open>vdata\<close> gives, for
  the vector at an address of the store, the machine address \<^verbatim>\<open>data()\<close> of its first byte;
  the vector occupies the addresses from there on and lies inside the address space.
\<close>

definition fits :: "nat \<Rightarrow> nat \<Rightarrow> DataVector \<Rightarrow> bool" where
  "fits W base v = (base + length v < 2 ^ W)"

text \<open>
  An address space so much larger than a total span that no \<^verbatim>\<open>pointer += chunkSize\<close> of a
  scan of the vector wraps: \<^verbatim>\<open>size_t\<close> is wider than 32 bits and at least \<open>2 ^ 32 + 8\<close>
  addresses follow the vector (a 64-bit build).
\<close>

definition no_wrap :: "nat \<Rightarrow> nat \<Rightarrow> DataVector \<Rightarrow> bool" where
  "no_wrap W base v = (32 < W \<and> base + length v + 2 ^ 32 + 8 \<le> 2 ^ W)"

text \<open>
  \<^verbatim>\<open>reinterpret_cast<const ChunkHeader*>(pointer)\<close> and the reads of its fields, for a
  machine address: \<open>None\<close> when the 16 bytes are not bytes of the vector.
\<close>

definition ChunkHeader_at :: "nat \<Rightarrow> DataVector \<Rightarrow> nat \<Rightarrow> ChunkHeader option" where
  "ChunkHeader_at base v pointer =
     (if base \<le> pointer then cast_ChunkHeader v (pointer - base) else None)"

text \<open>
  The \<^verbatim>\<open>while\<close> loop of \<^verbatim>\<open>chunk(p_identifier, po_size)\<close>, for the vector \<open>v\<close> at address
  \<open>a\<close> of the store whose bytes start at the machine address \<open>base\<close>. The variable
  \<^verbatim>\<open>pointer\<close> is a machine address and \<^verbatim>\<open>end\<close> is \<open>base + length v\<close>. The addition
  \<^verbatim>\<open>pointer += chunkSize\<close> is that of the machine: it wraps at \<open>2 ^ W\<close>, so it may leave the
  pointer past \<^verbatim>\<open>end\<close> (the loop is left), at a lower address inside the vector (the scan
  goes backwards), or at an address before the vector (the next header read is out of
  bounds). The loop need not terminate: the result \<open>None\<close> is a scan that runs forever. A
  returned pair is the function's return value, as a byte offset into the vector at \<open>a\<close>,
  and the final \<^verbatim>\<open>po_size\<close>, which the caller of the loop has set to 0 before.
\<close>

partial_function (option) chunk_loop ::
  "nat \<Rightarrow> nat \<Rightarrow> addr \<Rightarrow> DataVector \<Rightarrow> dword \<Rightarrow> nat \<Rightarrow> (error + pointer \<times> uint32) option" where
  "chunk_loop W base a v p_identifier pointer =
     (if pointer < base + length v then
        (let remaining = base + length v - pointer in
         if remaining < sizeof_ChunkHeader then Some (Inr (None, 0))
         else (case ChunkHeader_at base v pointer of
                 None \<Rightarrow> Some (Inl OutOfBounds)
               | Some chunkHead \<Rightarrow>
                   (let chunkSize = chunkSize_of W chunkHead in
                    if ChunkHeader.magic chunkHead = p_identifier
                    then Some (Inr (Some (a, pointer + sizeof_ChunkHeader - base), po_size_of W chunkHead))
                    else chunk_loop W base a v p_identifier ((pointer + chunkSize) mod 2 ^ W))))
      else Some (Inr (None, 0)))"

declare chunk_loop.simps [code]

text \<open>\<^verbatim>\<open>const byte* chunk(dword p_identifier, uint32& po_size) const\<close>.\<close>

definition chunk ::
  "nat \<Rightarrow> (addr \<Rightarrow> nat) \<Rightarrow> store \<Rightarrow> PackFile \<Rightarrow> dword \<Rightarrow> (error + pointer \<times> uint32) option" where
  "chunk W vdata s this p_identifier =
     (case m_header this of
        None \<Rightarrow> Some (Inr (None, 0))
      | Some h \<Rightarrow>
          (case m_data this of
             None \<Rightarrow> Some (Inl NullDeref)
           | Some a \<Rightarrow>
               (case cell_at s a of
                  None \<Rightarrow> Some (Inl UseAfterFree)
                | Some (v, n) \<Rightarrow>
                    chunk_loop W (vdata a) a v p_identifier (vdata a + sizeof_FileHeader))))"

text \<open>
  \<^verbatim>\<open>template <dword TId> std::shared_ptr<...::Type> chunk() const\<close>. The record type
  \<^verbatim>\<open>ChunkFactory<TFileType,TId>::Type\<close> is declared outside this file; its constructor
  from a pointer and a size is the parameter \<open>Type\<close>, which reads the store through the
  pointer. The result is the returned \<^verbatim>\<open>shared_ptr\<close> (\<open>None\<close> for one that holds
  \<^verbatim>\<open>nullptr\<close>) and the list of the constructor calls made, with their arguments.
\<close>

definition chunk_typed ::
  "nat \<Rightarrow> (addr \<Rightarrow> nat) \<Rightarrow> (store \<Rightarrow> pointer \<Rightarrow> uint32 \<Rightarrow> 'r) \<Rightarrow> store \<Rightarrow> PackFile \<Rightarrow> dword
     \<Rightarrow> (error + 'r option \<times> (pointer \<times> uint32) list) option" where
  "chunk_typed W vdata Type s this TId =
     (case chunk W vdata s this TId of
        None \<Rightarrow> None
      | Some (Inl e) \<Rightarrow> Some (Inl e)
      | Some (Inr (data, size')) \<Rightarrow> Some (Inr (Some (Type s data size'), [(data, size')])))"

text \<open>
  The bytes a returned view denotes: \<open>None\<close> when the pointer is null, the vector is gone,
  or the view does not lie inside the vector.
\<close>

definition view_bytes :: "store \<Rightarrow> pointer \<Rightarrow> uint32 \<Rightarrow> byte list option" where
  "view_bytes s p n =
     (case p of
        None \<Rightarrow> None
      | Some (a, off) \<Rightarrow>
          (case cell_at s a of
             None \<Rightarrow> None
           | Some (v, c) \<Rightarrow>
               if off + unat n \<le> length v then Some (take (unat n) (drop off v)) else None))"

subsection \<open>Notions the properties are stated with\<close>

text \<open>The bytes of the vector a PackFile owns, if it owns one.\<close>

definition buffer_of :: "store \<Rightarrow> PackFile \<Rightarrow> DataVector option" where
  "buffer_of s this =
     (case m_data this of
        None \<Rightarrow> None
      | Some a \<Rightarrow> map_option fst (cell_at s a))"

text \<open>
  The first bytes of a buffer, read as a \<^verbatim>\<open>FileHeader\<close>, carry the magic \<^verbatim>\<open>"PF"\<close> and
  the content type \<^verbatim>\<open>TFileType\<close>.
\<close>

definition valid_header :: "uint32 \<Rightarrow> DataVector \<Rightarrow> bool" where
  "valid_header TFileType v =
     (case cast_FileHeader v 0 of
        None \<Rightarrow> False
      | Some header \<Rightarrow> FileHeader.magic header = [0x50, 0x46] \<and> contentType header = TFileType)"

text \<open>
  The class invariant. A PackFile whose \<^verbatim>\<open>m_data\<close> is null (left so by a constructor
  whose \<^verbatim>\<open>assign\<close> failed) or whose vector is empty has no header view; a PackFile with a
  non-empty vector has its header view at the start of that vector, and the vector starts
  with a valid header. The vector of a PackFile is alive and counts at least one owner.
\<close>

definition invariant :: "uint32 \<Rightarrow> store \<Rightarrow> PackFile \<Rightarrow> bool" where
  "invariant TFileType s this =
     (case m_data this of
        None \<Rightarrow> m_header this = None
      | Some a \<Rightarrow>
          (case cell_at s a of
             None \<Rightarrow> False
           | Some (v, n) \<Rightarrow>
               0 < n \<and>
               (if v = [] then m_header this = None
                else m_header this = Some (a, 0) \<and> valid_header TFileType v)))"

text \<open>
  Storage order: \<open>chunk_table W v p qs\<close> holds when \<open>qs\<close> lists the offsets of consecutive
  chunk headers of \<open>v\<close>, the first at \<open>p\<close>, each one complete and each next one a total
  span after the one before.
\<close>

fun chunk_table :: "nat \<Rightarrow> DataVector \<Rightarrow> nat \<Rightarrow> nat list \<Rightarrow> bool" where
  "chunk_table W v p [] = True"
| "chunk_table W v p (q # qs) =
     (q = p \<and> p < length v \<and> sizeof_ChunkHeader \<le> length v - p \<and>
      (case cast_ChunkHeader v p of
         None \<Rightarrow> False
       | Some chunkHead \<Rightarrow> chunk_table W v (p + chunkSize_of W chunkHead) qs))"


subsection \<open>Byte images of the two headers\<close>

definition le_uint16 :: "uint16 \<Rightarrow> byte list" where
  "le_uint16 x = [ucast x, ucast (drop_bit 8 x)]"

definition le_uint32 :: "uint32 \<Rightarrow> byte list" where
  "le_uint32 x = [ucast x, ucast (drop_bit 8 x), ucast (drop_bit 16 x), ucast (drop_bit 24 x)]"

definition FileHeader_bytes :: "FileHeader \<Rightarrow> byte list" where
  "FileHeader_bytes header =
     take 2 (FileHeader.magic header) @ le_uint16 (descriptorType header) @ le_uint16 (zero header)
       @ le_uint16 (FileHeader.headerSize header) @ le_uint32 (contentType header)"

definition ChunkHeader_bytes :: "ChunkHeader \<Rightarrow> byte list" where
  "ChunkHeader_bytes chunkHead =
     le_uint32 (ChunkHeader.magic chunkHead) @ le_uint32 (nextChunkOffset chunkHead)
       @ le_uint16 (version chunkHead) @ le_uint16 (ChunkHeader.headerSize chunkHead)
       @ le_uint32 (descriptorOffset chunkHead)"

text \<open>
  The buffer of the specification's scenario: the file header \<^verbatim>\<open>"PF"\<close>, 0, 0, 0x0010 and
  container type \<open>X\<close>, one chunk header with magic \<open>Y\<close>, \<^verbatim>\<open>nextChunkOffset\<close> 8, version 1,
  \<^verbatim>\<open>headerSize\<close> 12 and \<^verbatim>\<open>descriptorOffset\<close> 0, and the payload.
\<close>

definition scenario_buffer :: "uint32 \<Rightarrow> uint32 \<Rightarrow> byte list \<Rightarrow> byte list" where
  "scenario_buffer X Y payload =
     FileHeader_bytes \<lparr>FileHeader.magic = [0x50, 0x46], descriptorType = 0, zero = 0,
                       FileHeader.headerSize = 0x0010, contentType = X\<rparr>
     @ ChunkHeader_bytes \<lparr>ChunkHeader.magic = Y, nextChunkOffset = 8, version = 1,
                          ChunkHeader.headerSize = 12, descriptorOffset = 0\<rparr>
     @ payload"

text \<open>A file of one chunk with the given header fields and payload bytes.\<close>

definition one_chunk_file :: "uint32 \<Rightarrow> uint32 \<Rightarrow> uint32 \<Rightarrow> uint16 \<Rightarrow> byte list \<Rightarrow> byte list" where
  "one_chunk_file X Y nco hs payload =
     FileHeader_bytes \<lparr>FileHeader.magic = [0x50, 0x46], descriptorType = 0, zero = 0,
                       FileHeader.headerSize = 12, contentType = X\<rparr>
     @ ChunkHeader_bytes \<lparr>ChunkHeader.magic = Y, nextChunkOffset = nco, version = 1,
                          ChunkHeader.headerSize = hs, descriptorOffset = 0\<rparr>
     @ payload"

text \<open>
  A file of three chunks: one with magic \<^verbatim>\<open>0x58585858\<close> and no payload, then two with
  magic \<^verbatim>\<open>0x544D5247\<close>, the first with four payload bytes and the second with two.
\<close>

definition two_matching_chunks :: "byte list" where
  "two_matching_chunks =
     one_chunk_file 0x54414D41 0x58585858 8 16 []
     @ ChunkHeader_bytes \<lparr>ChunkHeader.magic = 0x544D5247, nextChunkOffset = 12, version = 1,
                          ChunkHeader.headerSize = 16, descriptorOffset = 0\<rparr> @ [1, 2, 3, 4]
     @ ChunkHeader_bytes \<lparr>ChunkHeader.magic = 0x544D5247, nextChunkOffset = 10, version = 1,
                          ChunkHeader.headerSize = 16, descriptorOffset = 0\<rparr> @ [5, 6]"

text \<open>The PackFile that holds its vector at address 0 with the header view set.\<close>

definition loaded_at_0 :: PackFile where
  "loaded_at_0 = \<lparr>m_data = Some 0, m_header = Some (0, 0)\<rparr>"

text \<open>A layout: the vector at address \<open>a\<close> of the store starts 64 KiB after the one before.\<close>

definition layout :: "addr \<Rightarrow> nat" where
  "layout a = 65536 * (a + 1)"

section \<open>Auxiliary facts\<close>

subsection \<open>Reads and the scan loop\<close>

lemmas sizes = sizeof_FileHeader_def sizeof_ChunkHeader_def offsetof_nextChunkOffset_def sizeof_nextChunkOffset_def

lemma cast_ChunkHeader_Some:
  "p + sizeof_ChunkHeader \<le> length v \<Longrightarrow> \<exists>h. cast_ChunkHeader v p = Some h"
  by (simp add: cast_ChunkHeader_def rd_uint16_def rd_uint32_def sizeof_ChunkHeader_def)

lemma cast_ChunkHeader_None:
  "length v < p + sizeof_ChunkHeader \<Longrightarrow> cast_ChunkHeader v p = None"
  by (auto simp add: cast_ChunkHeader_def rd_uint16_def rd_uint32_def sizeof_ChunkHeader_def)

lemma chunkSize_of_exact:
  "32 < W \<Longrightarrow> chunkSize_of W h = unat (nextChunkOffset h) + 8"
proof -
  assume w: "32 < W"
  have "unat (nextChunkOffset h) < 2 ^ 32"
    using unsigned_less [of "nextChunkOffset h"] by simp
  then have "unat (nextChunkOffset h) + 8 < 2 ^ 33" by simp
  also have "(2::nat) ^ 33 \<le> 2 ^ W" using w by (intro power_increasing) simp_all
  finally show ?thesis by (simp add: chunkSize_of_def sizes)
qed

lemma cast_ChunkHeader_remaining:
  "p < length v \<Longrightarrow> \<not> length v - p < sizeof_ChunkHeader \<Longrightarrow> cast_ChunkHeader v p \<noteq> None"
  using cast_ChunkHeader_Some [of p v] by fastforce

lemma ChunkHeader_at_offset [simp]: "ChunkHeader_at base v (base + p) = cast_ChunkHeader v p"
  by (simp add: ChunkHeader_at_def)

lemma chunk_loop_step_at:
  assumes "pointer < base + length v" and "\<not> base + length v - pointer < sizeof_ChunkHeader"
    and "ChunkHeader_at base v pointer = Some h"
  shows "chunk_loop W base a v i pointer =
           (if ChunkHeader.magic h = i
            then Some (Inr (Some (a, pointer + sizeof_ChunkHeader - base), po_size_of W h))
            else chunk_loop W base a v i ((pointer + chunkSize_of W h) mod 2 ^ W))"
  using assms by (subst chunk_loop.simps) (simp add: Let_def)

lemma chunk_loop_end_at:
  "\<not> (pointer < base + length v \<and> \<not> base + length v - pointer < sizeof_ChunkHeader)
   \<Longrightarrow> chunk_loop W base a v i pointer = Some (Inr (None, 0))"
  by (subst chunk_loop.simps) (auto simp: Let_def)

lemma ChunkHeader_at_remaining:
  assumes "base \<le> pointer" and "pointer < base + length v"
    and "\<not> base + length v - pointer < sizeof_ChunkHeader"
  shows "ChunkHeader_at base v pointer \<noteq> None"
  using assms cast_ChunkHeader_remaining [of "pointer - base" v]
  by (simp add: ChunkHeader_at_def)

lemma chunkSize_of_bounds:
  assumes "32 < W"
  shows "8 \<le> chunkSize_of W h \<and> chunkSize_of W h < 2 ^ 32 + 8"
  using chunkSize_of_exact [OF assms, of h] unsigned_less [of "nextChunkOffset h"] by simp

lemma no_wrap_advance:
  assumes "no_wrap W base v" and "pointer < base + length v"
  shows "(pointer + chunkSize_of W h) mod 2 ^ W = pointer + chunkSize_of W h"
proof -
  from assms(1) have w: "32 < W" and r: "base + length v + 2 ^ 32 + 8 \<le> (2::nat) ^ W"
    by (simp_all add: no_wrap_def)
  from chunkSize_of_bounds [OF w, of h] assms(2) r
  have "pointer + chunkSize_of W h < 2 ^ W" by linarith
  then show ?thesis by simp
qed

lemma chunk_loop_no_error:
  assumes "chunk_loop W base a v i p = Some r" and "no_wrap W base v" and "base \<le> p"
  shows "r \<noteq> Inl e"
proof -
  let ?P = "\<lambda>W base (a :: addr) v (i :: dword) p (r :: error + pointer \<times> uint32).
              no_wrap W base v \<longrightarrow> base \<le> p \<longrightarrow> r \<noteq> Inl e"
  have "?P W base a v i p r"
  proof (rule chunk_loop.raw_induct [OF _ assms(1), where P = ?P])
    fix loop W base a v i p r
    assume ih: "\<And>W base a v i p y. loop W base a v i p = Some y \<Longrightarrow> ?P W base a v i p y"
      and body: "(if p < base + length v then
                    let remaining = base + length v - p in
                    if remaining < sizeof_ChunkHeader then Some (Inr (None, 0))
                    else case ChunkHeader_at base v p of
                           None \<Rightarrow> Some (Inl OutOfBounds)
                         | Some chunkHead \<Rightarrow>
                             let chunkSize = chunkSize_of W chunkHead in
                             if ChunkHeader.magic chunkHead = i
                             then Some (Inr (Some (a, p + sizeof_ChunkHeader - base), po_size_of W chunkHead))
                             else loop W base a v i ((p + chunkSize) mod 2 ^ W)
                  else Some (Inr (None, 0))) = Some r"
    show "?P W base a v i p r"
    proof (intro impI)
      assume nw: "no_wrap W base v" and le: "base \<le> p"
      show "r \<noteq> Inl e"
      proof (cases "p < base + length v \<and> \<not> base + length v - p < sizeof_ChunkHeader")
        case False
        with body show ?thesis by (auto simp: Let_def split: if_splits)
      next
        case True
        with le obtain h where h: "ChunkHeader_at base v p = Some h"
          using ChunkHeader_at_remaining [of base p v] by auto
        show ?thesis
        proof (cases "ChunkHeader.magic h = i")
          case True
          with body \<open>p < base + length v \<and> \<not> base + length v - p < sizeof_ChunkHeader\<close> h
          show ?thesis by (auto simp: Let_def)
        next
          case False
          with body \<open>p < base + length v \<and> \<not> base + length v - p < sizeof_ChunkHeader\<close> h
          have "loop W base a v i (p + chunkSize_of W h) = Some r"
            using no_wrap_advance [OF nw, of p h] by (simp add: Let_def)
          from ih [OF this] nw le show ?thesis by simp
        qed
      qed
    qed
  qed
  with assms(2,3) show ?thesis by simp
qed

lemma chunk_loop_null_size:
  assumes "chunk_loop W base a v i p = Some (Inr (None, n))"
  shows "n = 0"
proof -
  have "\<forall>n. r = Inr (None, n) \<longrightarrow> n = 0" if "chunk_loop W base a v i p = Some r" for r
    by (rule chunk_loop.raw_induct [OF _ that,
          where P = "\<lambda>W base a v i p r. \<forall>n. r = Inr (None, n) \<longrightarrow> n = 0"])
       (auto simp: Let_def split: if_splits option.splits)
  with assms show ?thesis by blast
qed

lemma chunk_loop_addr:
  assumes "chunk_loop W base a v i p = Some (Inr (Some (a', off), n))"
  shows "a' = a"
proof -
  have "\<forall>a' off n. r = Inr (Some (a', off), n) \<longrightarrow> a' = a" if "chunk_loop W base a v i p = Some r" for r
    by (rule chunk_loop.raw_induct [OF _ that,
          where P = "\<lambda>W base a v i p r. \<forall>a' off n. r = Inr (Some (a', off), n) \<longrightarrow> a' = a"])
       (auto simp: Let_def split: if_splits option.splits)
  with assms show ?thesis by blast
qed

lemma chunk_loop_terminates:
  assumes "no_wrap W base v" and "base \<le> p"
  shows "\<exists>r. chunk_loop W base a v i p = Some r"
  using assms(2)
proof (induction "base + length v - p" arbitrary: p rule: less_induct)
  case less
  from assms(1) have w: "32 < W" by (simp add: no_wrap_def)
  show ?case
  proof (cases "p < base + length v \<and> \<not> base + length v - p < sizeof_ChunkHeader")
    case False
    then show ?thesis by (simp add: chunk_loop_end_at)
  next
    case True
    with less.prems obtain h where h: "ChunkHeader_at base v p = Some h"
      using ChunkHeader_at_remaining [of base p v] by auto
    have adv: "(p + chunkSize_of W h) mod 2 ^ W = p + chunkSize_of W h"
      using no_wrap_advance [OF assms(1), of p h] True by simp
    have "0 < chunkSize_of W h"
      using chunkSize_of_bounds [OF w, of h] by simp
    then have "base + length v - (p + chunkSize_of W h) < base + length v - p"
      using True by linarith
    moreover have "base \<le> p + chunkSize_of W h" using less.prems by simp
    ultimately obtain r where "chunk_loop W base a v i (p + chunkSize_of W h) = Some r"
      using less.hyps by blast
    then show ?thesis
      using True h adv by (simp add: chunk_loop_step_at)
  qed
qed


lemma cell_at_append:
  "cell_at (s @ [x]) a = (if a < length s then cell_at s a else if a = length s then x else None)"
  by (simp add: cell_at_def nth_append)

lemma cell_at_update:
  "cell_at (s[a := x]) b = (if b = a \<and> a < length s then x else cell_at s b)"
  by (simp add: cell_at_def)

lemma cell_at_length: "cell_at s a = Some c \<Longrightarrow> a < length s"
  by (simp add: cell_at_def split: if_splits)

lemma length_release [simp]: "length (release s p) = length s"
  by (simp add: release_def split: option.splits prod.splits)

lemma length_acquire [simp]: "length (acquire s p) = length s"
  by (simp add: acquire_def split: option.splits prod.splits)

lemma cell_at_acquire:
  "cell_at (acquire s p) b =
     (case cell_at s b of
        None \<Rightarrow> None
      | Some (v, n) \<Rightarrow> Some (v, if p = Some b then Suc n else n))"
  by (auto simp: acquire_def cell_at_update dest: cell_at_length split: option.splits prod.splits)

lemma cell_at_release:
  "cell_at (release s p) b =
     (case cell_at s b of
        None \<Rightarrow> None
      | Some (v, n) \<Rightarrow> if p = Some b then (if n \<le> 1 then None else Some (v, n - 1)) else Some (v, n))"
  by (auto simp: release_def cell_at_update dest: cell_at_length split: option.splits prod.splits)

lemma deref_Outside [simp]: "deref s (Outside src) = Inr src"
  by (simp add: deref_def)

lemma deref_after_release:
  assumes "deref s p = Inr src" and "deref (release (s @ [x]) q) p = Inr src'"
  shows "src' = src"
proof (cases p)
  case Nullptr
  with assms show ?thesis by (simp add: deref_def)
next
  case (Outside bs)
  with assms show ?thesis by simp
next
  case (Inside a off)
  with assms(1) obtain v n where c: "cell_at s a = Some (v, n)" "off \<le> length v" "src = drop off v"
    by (auto simp: deref_def split: option.splits if_splits)
  then have "a < length s" by (auto dest: cell_at_length)
  with Inside assms(2) c show ?thesis
    by (auto simp: deref_def cell_at_release cell_at_append split: option.splits if_splits)
qed

lemma assign_False:
  "assign T s this p_data p_size = Inr (False, s', this') \<Longrightarrow> s' = s \<and> this' = this"
  by (auto simp: assign_def new_DataVector_def Let_def split: option.splits if_splits sum.splits)

lemma assign_True:
  assumes "assign T s this p_data p_size = Inr (True, s', this')"
  shows "\<exists>src header. deref s p_data = Inr src \<and> sizeof_FileHeader \<le> unat p_size
           \<and> unat p_size \<le> length src
           \<and> cast_FileHeader src 0 = Some header
           \<and> FileHeader.magic header ! 0 = 0x50 \<and> FileHeader.magic header ! 1 = 0x46
           \<and> contentType header = T
           \<and> this' = \<lparr>m_data = Some (length s), m_header = Some (length s, 0)\<rparr>
           \<and> s' = (release (s @ [Some (replicate (unat p_size) 0, 1)]) (m_data this))
                    [length s := Some (take (unat p_size) src, 1)]"
proof -
  let ?s2 = "release (s @ [Some (replicate (unat p_size) 0, 1)]) (m_data this)"
  from assms obtain src header src' where *: "deref s p_data = Inr src"
      "sizeof_FileHeader \<le> unat p_size" "cast_FileHeader src 0 = Some header"
      "FileHeader.magic header ! 0 = 0x50" "FileHeader.magic header ! 1 = 0x46"
      "contentType header = T" "deref ?s2 p_data = Inr src'"
      "memcpy_to ?s2 (length s) src' (unat p_size)
         = Inr s'" "this' = \<lparr>m_data = Some (length s), m_header = Some (length s, 0)\<rparr>"
    by (auto simp: assign_def new_DataVector_def Let_def split: option.splits if_splits sum.splits)
  from deref_after_release [OF *(1,7)] have eq: "src' = src" .
  from *(8) have "unat p_size \<le> length src
      \<and> s' = ?s2 [length s := Some (take (unat p_size) src, 1)]"
    unfolding eq
    by (auto simp: memcpy_to_def cell_at_release cell_at_append split: option.splits if_splits prod.splits)
  with * show ?thesis by simp
qed

subsection \<open>Little-endian images read back\<close>

lemma split4:
  assumes "n < 2 ^ 32"
  shows "n mod 256 + 256 * (n div 256 mod 256) + 65536 * (n div 65536 mod 256)
        + 16777216 * (n div 16777216 mod 256) = (n::nat)"
proof -
  have a: "n div 65536 = n div 256 div 256" and b: "n div 16777216 = n div 65536 div 256"
    by (simp_all add: div_mult2_eq [symmetric])
  have 1: "n = n mod 256 + 256 * (n div 256)" by simp
  have 2: "n div 256 = n div 256 mod 256 + 256 * (n div 65536)" unfolding a by simp
  have 3: "n div 65536 = n div 65536 mod 256 + 256 * (n div 16777216)" unfolding b by simp
  have "n div 16777216 < 256" using assms by simp
  then have 4: "n div 16777216 mod 256 = n div 16777216" by simp
  show ?thesis using 1 2 3 4 by linarith
qed

lemma split2:
  assumes "n < 2 ^ 16"
  shows "n mod 256 + 256 * (n div 256 mod 256) = (n::nat)"
proof -
  have "n div 256 < 256" using assms by simp
  then have "n div 256 mod 256 = n div 256" by simp
  then show ?thesis by simp
qed

lemma unat_byte0: "unat (ucast x :: byte) = unat x mod 256" for x :: "'a::len word"
  by (simp add: unsigned_ucast_eq take_bit_eq_mod)

lemma unat_byte_drop: "unat (ucast (drop_bit k x) :: byte) = unat x div 2 ^ k mod 256" for x :: "'a::len word"
  unfolding unsigned_ucast_eq unat_drop_bit_eq
  by (simp add: take_bit_eq_mod drop_bit_eq_div)

lemma rd_le_uint32:
  "rd_uint32 (pre @ le_uint32 x @ post) (length pre) = Some x"
proof -
  have lt: "unat x < 2 ^ 32" using unsigned_less [of x] by simp
  have b: "unat (ucast (drop_bit 8 x) :: byte) = unat x div 256 mod 256"
    "unat (ucast (drop_bit 16 x) :: byte) = unat x div 65536 mod 256"
    "unat (ucast (drop_bit 24 x) :: byte) = unat x div 16777216 mod 256"
    using unat_byte_drop [of 8 x] unat_byte_drop [of 16 x] unat_byte_drop [of 24 x] by simp_all
  have "unat (ucast x :: byte) + 256 * unat (ucast (drop_bit 8 x) :: byte)
          + 65536 * unat (ucast (drop_bit 16 x) :: byte)
          + 16777216 * unat (ucast (drop_bit 24 x) :: byte) = unat x"
    by (simp only: b) (simp only: unat_byte0 split4 [OF lt])
  then have "(word_of_nat (unat (ucast x :: byte) + 256 * unat (ucast (drop_bit 8 x) :: byte)
          + 65536 * unat (ucast (drop_bit 16 x) :: byte)
          + 16777216 * unat (ucast (drop_bit 24 x) :: byte)) :: uint32) = x"
    by (simp only: of_nat_unat ucast_id)
  moreover have "(pre @ le_uint32 x @ post) ! length pre = ucast x"
    "(pre @ le_uint32 x @ post) ! (length pre + 1) = ucast (drop_bit 8 x)"
    "(pre @ le_uint32 x @ post) ! (length pre + 2) = ucast (drop_bit 16 x)"
    "(pre @ le_uint32 x @ post) ! (length pre + 3) = ucast (drop_bit 24 x)"
    "length pre + 4 \<le> length (pre @ le_uint32 x @ post)"
    by (simp_all add: le_uint32_def nth_append)
  ultimately show ?thesis
    by (simp only: rd_uint32_def if_True)
qed

lemma rd_le_uint16:
  "rd_uint16 (pre @ le_uint16 x @ post) (length pre) = Some x"
proof -
  have lt: "unat x < 2 ^ 16" using unsigned_less [of x] by simp
  have b: "unat (ucast (drop_bit 8 x) :: byte) = unat x div 256 mod 256"
    using unat_byte_drop [of 8 x] by simp
  have "unat (ucast x :: byte) + 256 * unat (ucast (drop_bit 8 x) :: byte) = unat x"
    by (simp only: b) (simp only: unat_byte0 split2 [OF lt])
  then have "(word_of_nat (unat (ucast x :: byte) + 256 * unat (ucast (drop_bit 8 x) :: byte)) :: uint16) = x"
    by (simp only: of_nat_unat ucast_id)
  moreover have "(pre @ le_uint16 x @ post) ! length pre = ucast x"
    "(pre @ le_uint16 x @ post) ! (length pre + 1) = ucast (drop_bit 8 x)"
    "length pre + 2 \<le> length (pre @ le_uint16 x @ post)"
    by (simp_all add: le_uint16_def nth_append)
  ultimately show ?thesis
    by (simp only: rd_uint16_def if_True)
qed

subsection \<open>Header images read back\<close>

lemma length_le_uint16 [simp]: "length (le_uint16 x) = 2"
  by (simp add: le_uint16_def)

lemma length_le_uint32 [simp]: "length (le_uint32 x) = 4"
  by (simp add: le_uint32_def)

lemma length_ChunkHeader_bytes [simp]: "length (ChunkHeader_bytes h) = 16"
  by (simp add: ChunkHeader_bytes_def)

lemma length_FileHeader_bytes [simp]:
  "length (FileHeader.magic h) = 2 \<Longrightarrow> length (FileHeader_bytes h) = 12"
  by (simp add: FileHeader_bytes_def)

lemma cast_ChunkHeader_bytes:
  "cast_ChunkHeader (pre @ ChunkHeader_bytes h @ post) (length pre) = Some h"
proof -
  let ?m = "le_uint32 (ChunkHeader.magic h)" and ?n = "le_uint32 (nextChunkOffset h)"
  and ?v = "le_uint16 (version h)" and ?s = "le_uint16 (ChunkHeader.headerSize h)"
  and ?d = "le_uint32 (descriptorOffset h)"
  let ?bs = "pre @ ChunkHeader_bytes h @ post"
  have "rd_uint32 ?bs (length pre) = Some (ChunkHeader.magic h)"
    using rd_le_uint32 [of pre "ChunkHeader.magic h" "?n @ ?v @ ?s @ ?d @ post"]
    by (simp add: ChunkHeader_bytes_def)
  moreover have "rd_uint32 ?bs (length pre + 4) = Some (nextChunkOffset h)"
    using rd_le_uint32 [of "pre @ ?m" "nextChunkOffset h" "?v @ ?s @ ?d @ post"]
    by (simp add: ChunkHeader_bytes_def)
  moreover have "rd_uint16 ?bs (length pre + 8) = Some (version h)"
    using rd_le_uint16 [of "pre @ ?m @ ?n" "version h" "?s @ ?d @ post"]
    by (simp add: ChunkHeader_bytes_def)
  moreover have "rd_uint16 ?bs (length pre + 10) = Some (ChunkHeader.headerSize h)"
    using rd_le_uint16 [of "pre @ ?m @ ?n @ ?v" "ChunkHeader.headerSize h" "?d @ post"]
    by (simp add: ChunkHeader_bytes_def)
  moreover have "rd_uint32 ?bs (length pre + 12) = Some (descriptorOffset h)"
    using rd_le_uint32 [of "pre @ ?m @ ?n @ ?v @ ?s" "descriptorOffset h" post]
    by (simp add: ChunkHeader_bytes_def)
  ultimately show ?thesis
    by (simp add: cast_ChunkHeader_def)
qed

lemma cast_FileHeader_bytes:
  assumes "FileHeader.magic h = [m0, m1]"
  shows "cast_FileHeader (FileHeader_bytes h @ post) 0 = Some h"
proof -
  let ?t = "le_uint16 (descriptorType h)" and ?z = "le_uint16 (zero h)"
  and ?s = "le_uint16 (FileHeader.headerSize h)" and ?c = "le_uint32 (contentType h)"
  let ?bs = "FileHeader_bytes h @ post"
  have bs: "?bs = [m0, m1] @ ?t @ ?z @ ?s @ ?c @ post"
    by (simp add: FileHeader_bytes_def assms)
  have "rd_uint8 ?bs 0 = Some m0" "rd_uint8 ?bs (0 + 1) = Some m1"
    by (simp_all add: bs rd_uint8_def)
  moreover have "rd_uint16 ?bs (0 + 2) = Some (descriptorType h)"
    using rd_le_uint16 [of "[m0, m1]" "descriptorType h" "?z @ ?s @ ?c @ post"]
    by (simp add: bs)
  moreover have "rd_uint16 ?bs (0 + 4) = Some (zero h)"
    using rd_le_uint16 [of "[m0, m1] @ ?t" "zero h" "?s @ ?c @ post"]
    by (simp add: bs)
  moreover have "rd_uint16 ?bs (0 + 6) = Some (FileHeader.headerSize h)"
    using rd_le_uint16 [of "[m0, m1] @ ?t @ ?z" "FileHeader.headerSize h" "?c @ post"]
    by (simp add: bs)
  moreover have "rd_uint32 ?bs (0 + 8) = Some (contentType h)"
    using rd_le_uint32 [of "[m0, m1] @ ?t @ ?z @ ?s" "contentType h" post]
    by (simp add: bs)
  ultimately show ?thesis
    by (simp add: cast_FileHeader_def assms)
qed

subsection \<open>One turn of the loop, and storage order\<close>

lemma chunk_loop_end:
  "\<not> (p < length v \<and> \<not> length v - p < sizeof_ChunkHeader)
   \<Longrightarrow> chunk_loop W base a v i (base + p) = Some (Inr (None, 0))"
  by (rule chunk_loop_end_at) auto

lemma chunk_loop_step:
  assumes "p < length v" "\<not> length v - p < sizeof_ChunkHeader" "cast_ChunkHeader v p = Some h"
  shows "chunk_loop W base a v i (base + p) =
           (if ChunkHeader.magic h = i
            then Some (Inr (Some (a, p + sizeof_ChunkHeader), po_size_of W h))
            else chunk_loop W base a v i ((base + p + chunkSize_of W h) mod 2 ^ W))"
  using assms chunk_loop_step_at [of "base + p" base v h W a i] by simp

lemma chunk_loop_step_inside:
  assumes "p < length v" "\<not> length v - p < sizeof_ChunkHeader" "cast_ChunkHeader v p = Some h"
    and "ChunkHeader.magic h \<noteq> i" and "base + (p + chunkSize_of W h) < 2 ^ W"
  shows "chunk_loop W base a v i (base + p) = chunk_loop W base a v i (base + (p + chunkSize_of W h))"
  using assms(4,5) chunk_loop_step [OF assms(1-3), of W base a i] by (simp add: add.assoc)


lemma chunk_table_first:
  "chunk_table W v p (qs @ [q]) \<Longrightarrow> p < length v"
  by (cases qs) simp_all

lemma chunk_loop_table:
  assumes "fits W base v" and "chunk_table W v p (qs @ [q])"
    and "\<forall>x \<in> set qs. \<forall>h. cast_ChunkHeader v x = Some h \<longrightarrow> ChunkHeader.magic h \<noteq> i"
  shows "chunk_loop W base a v i (base + p) = chunk_loop W base a v i (base + q)"
  using assms(2,3)
proof (induction qs arbitrary: p)
  case Nil
  then show ?case by simp
next
  case (Cons x xs)
  from Cons.prems(1) obtain h where h: "x = p" "p < length v" "\<not> length v - p < sizeof_ChunkHeader"
      "cast_ChunkHeader v p = Some h" "chunk_table W v (p + chunkSize_of W h) (xs @ [q])"
    by (auto split: option.splits)
  from Cons.prems(2) h have ne: "ChunkHeader.magic h \<noteq> i" by simp
  from h(5) have "p + chunkSize_of W h < length v"
    by (rule chunk_table_first)
  with assms(1) have "base + (p + chunkSize_of W h) < 2 ^ W" by (simp add: fits_def)
  from chunk_loop_step_inside [OF h(2-4) ne this]
  have "chunk_loop W base a v i (base + p) = chunk_loop W base a v i (base + (p + chunkSize_of W h))" .
  also have "\<dots> = chunk_loop W base a v i (base + q)"
    using Cons.IH [OF h(5)] Cons.prems(2) by simp
  finally show ?case .
qed

lemma chunk_table_append:
  "chunk_table W v p (qs @ rs) \<Longrightarrow> chunk_table W v p qs"
  by (induction qs arbitrary: p) (auto split: option.splits)

lemma chunk_table_last:
  "chunk_table W v p (qs @ [q]) \<Longrightarrow> q < length v \<and> \<not> length v - q < sizeof_ChunkHeader"
  by (induction qs arbitrary: p) (auto split: option.splits)

lemma word_of_nat_mod_pow:
  "32 \<le> W \<Longrightarrow> (word_of_nat (n mod 2 ^ W) :: uint32) = word_of_nat n"
  by (simp add: word_of_nat_eq_iff min_def flip: take_bit_eq_mod)

lemma word_of_int_mod_pow:
  "32 \<le> W \<Longrightarrow> (word_of_int (k mod 2 ^ W) :: uint32) = word_of_int k"
  by (simp add: word_of_int_eq_iff min_def flip: take_bit_eq_mod)

lemma word_of_chunkSize:
  assumes "32 \<le> W"
  shows "(word_of_nat (chunkSize_of W h) :: uint32) = nextChunkOffset h + 8"
  unfolding chunkSize_of_def sizes word_of_nat_mod_pow [OF assms] by simp

lemma po_size_of_word:
  assumes "32 \<le> W"
  shows "po_size_of W h = word_of_nat (chunkSize_of W h) - ucast (ChunkHeader.headerSize h)"
  unfolding po_size_of_def word_of_int_mod_pow [OF assms] by (simp add: word_of_int_minus)

subsection \<open>Files of one chunk\<close>

lemma length_one_chunk_file [simp]:
  "length (one_chunk_file X Y nco hs payload) = 28 + length payload"
  by (simp add: one_chunk_file_def)

lemma length_scenario_buffer [simp]:
  "length (scenario_buffer X Y payload) = 28 + length payload"
  by (simp add: scenario_buffer_def)

lemma cast_ChunkHeader_one_chunk_file:
  "cast_ChunkHeader (one_chunk_file X Y nco hs payload) 12
     = Some \<lparr>ChunkHeader.magic = Y, nextChunkOffset = nco, version = 1,
             ChunkHeader.headerSize = hs, descriptorOffset = 0\<rparr>"
  unfolding one_chunk_file_def
  using cast_ChunkHeader_bytes
    [of "FileHeader_bytes \<lparr>FileHeader.magic = [0x50, 0x46], descriptorType = 0, zero = 0,
                       FileHeader.headerSize = 12, contentType = X\<rparr>"]
  by simp

lemma cast_ChunkHeader_scenario_buffer:
  "cast_ChunkHeader (scenario_buffer X Y payload) 12
     = Some \<lparr>ChunkHeader.magic = Y, nextChunkOffset = 8, version = 1,
             ChunkHeader.headerSize = 12, descriptorOffset = 0\<rparr>"
  unfolding scenario_buffer_def
  using cast_ChunkHeader_bytes
    [of "FileHeader_bytes \<lparr>FileHeader.magic = [0x50, 0x46], descriptorType = 0, zero = 0,
                       FileHeader.headerSize = 0x0010, contentType = X\<rparr>"]
  by simp

lemma cast_FileHeader_one_chunk_file:
  "cast_FileHeader (one_chunk_file X Y nco hs payload) 0
     = Some \<lparr>FileHeader.magic = [0x50, 0x46], descriptorType = 0, zero = 0,
                       FileHeader.headerSize = 12, contentType = X\<rparr>"
  unfolding one_chunk_file_def by (rule cast_FileHeader_bytes) simp

lemma cast_FileHeader_scenario_buffer:
  "cast_FileHeader (scenario_buffer X Y payload) 0
     = Some \<lparr>FileHeader.magic = [0x50, 0x46], descriptorType = 0, zero = 0,
                       FileHeader.headerSize = 0x0010, contentType = X\<rparr>"
  unfolding scenario_buffer_def by (rule cast_FileHeader_bytes) simp

lemma assign_fresh:
  assumes "cast_FileHeader src 0 = Some h" and "FileHeader.magic h = [0x50, 0x46]"
    and "contentType h = T" and "unat p_size = length src" and "sizeof_FileHeader \<le> length src"
  shows "assign T [] \<lparr>m_data = None, m_header = None\<rparr> (Outside src) p_size
           = Inr (True, [Some (src, 1)], loaded_at_0)"
proof -
  from assms(4,5) have "p_size \<noteq> 0" by (auto simp: sizes)
  with assms show ?thesis
    by (simp add: assign_def new_DataVector_def release_def memcpy_to_def cell_at_def loaded_at_0_def)
qed

lemma two_pow_le: "32 \<le> W \<Longrightarrow> (4294967296::nat) \<le> 2 ^ W"
  using power_increasing [of 32 W "2::nat"] by simp

lemma chunkSize_small:
  assumes "32 \<le> W" and "unat nco + 8 < 4294967296"
  shows "chunkSize_of W \<lparr>ChunkHeader.magic = Y, nextChunkOffset = nco, version = ve,
             ChunkHeader.headerSize = hs, descriptorOffset = d\<rparr> = unat nco + 8"
  using assms two_pow_le [OF assms(1)] by (simp add: chunkSize_of_def sizes)

subsection \<open>The scan on a file of one chunk, a scan that never ends, and scans that end\<close>

lemma assign_one_chunk_file:
  assumes "length payload < 1000"
  shows "assign X [] \<lparr>m_data = None, m_header = None\<rparr> (Outside (one_chunk_file X Y nco hs payload))
            (word_of_nat (28 + length payload))
           = Inr (True, [Some (one_chunk_file X Y nco hs payload, 1)], loaded_at_0)"
proof -
  have "unat (word_of_nat (28 + length payload) :: uint32) = 28 + length payload"
    using assms by (intro of_nat_inverse [OF refl]) simp
  then show ?thesis
    by (intro assign_fresh [OF cast_FileHeader_one_chunk_file]) (simp_all add: sizes)
qed

lemma chunk_loaded_at_0:
  "chunk W vdata [Some (v, n)] loaded_at_0 i = chunk_loop W (vdata 0) 0 v i (vdata 0 + sizeof_FileHeader)"
  by (simp add: chunk_def loaded_at_0_def cell_at_def)

lemma chunk_loop_one_chunk_file:
  "chunk_loop W base 0 (one_chunk_file X Y nco hs payload) i (base + sizeof_FileHeader) =
     (if Y = i
      then Some (Inr (Some (0, 28), po_size_of W \<lparr>ChunkHeader.magic = Y, nextChunkOffset = nco, version = 1,
             ChunkHeader.headerSize = hs, descriptorOffset = 0\<rparr>))
      else chunk_loop W base 0 (one_chunk_file X Y nco hs payload) i
             ((base + 12 + chunkSize_of W \<lparr>ChunkHeader.magic = Y, nextChunkOffset = nco, version = 1,
             ChunkHeader.headerSize = hs, descriptorOffset = 0\<rparr>) mod 2 ^ W))"
  using chunk_loop_step [of 12 "one_chunk_file X Y nco hs payload" _ W base 0 i,
          OF _ _ cast_ChunkHeader_one_chunk_file]
  by (simp add: sizes)

lemma chunk_loop_zero_span:
  assumes "p < base + length v" and "\<not> base + length v - p < sizeof_ChunkHeader"
    and "ChunkHeader_at base v p = Some h" and "ChunkHeader.magic h \<noteq> i" and "chunkSize_of W h = 0"
    and "p < 2 ^ W"
  shows "chunk_loop W base a v i p = None"
proof (rule ccontr)
  assume "chunk_loop W base a v i p \<noteq> None"
  then obtain r where r: "chunk_loop W base a v i p = Some r" by auto
  let ?P = "\<lambda>W' base' a' v' i' p' (r' :: error + pointer \<times> uint32).
              \<not> (W' = W \<and> base' = base \<and> a' = a \<and> v' = v \<and> i' = i \<and> p' = p)"
  have "?P W base a v i p r"
  proof (rule chunk_loop.raw_induct [OF _ r, where P = ?P])
    fix loop W' base' a' v' i' p' r'
    assume ih: "\<And>W base a v i p y. loop W base a v i p = Some y \<Longrightarrow> ?P W base a v i p y"
      and body: "(if p' < base' + length v' then
                    let remaining = base' + length v' - p' in
                    if remaining < sizeof_ChunkHeader then Some (Inr (None, 0))
                    else case ChunkHeader_at base' v' p' of
                           None \<Rightarrow> Some (Inl OutOfBounds)
                         | Some chunkHead \<Rightarrow>
                             let chunkSize = chunkSize_of W' chunkHead in
                             if ChunkHeader.magic chunkHead = i'
                             then Some (Inr (Some (a', p' + sizeof_ChunkHeader - base'),
                                             po_size_of W' chunkHead))
                             else loop W' base' a' v' i' ((p' + chunkSize) mod 2 ^ W')
                  else Some (Inr (None, 0))) = Some r'"
    show "?P W' base' a' v' i' p' r'"
    proof
      assume eq: "W' = W \<and> base' = base \<and> a' = a \<and> v' = v \<and> i' = i \<and> p' = p"
      with body assms have "loop W base a v i p = Some r'" by (simp add: Let_def)
      from ih [OF this] show False by simp
    qed
  qed
  then show False by simp
qed

lemma chunk_terminates:
  assumes "\<And>a v n. m_data this = Some a \<Longrightarrow> cell_at s a = Some (v, n) \<Longrightarrow> no_wrap W (vdata a) v"
  shows "\<exists>r. chunk W vdata s this i = Some r"
  using assms chunk_loop_terminates
  by (auto simp: chunk_def split: option.split prod.split)

lemma chunk_no_out_of_bounds_read:
  assumes "\<And>a v n. m_data this = Some a \<Longrightarrow> cell_at s a = Some (v, n) \<Longrightarrow> no_wrap W (vdata a) v"
  shows "chunk W vdata s this i \<noteq> Some (Inl OutOfBounds)"
proof
  assume c: "chunk W vdata s this i = Some (Inl OutOfBounds)"
  then obtain a v n where *: "m_data this = Some a" "cell_at s a = Some (v, n)"
      "chunk_loop W (vdata a) a v i (vdata a + sizeof_FileHeader) = Some (Inl OutOfBounds)"
    by (auto simp: chunk_def split: option.splits prod.splits)
  from chunk_loop_no_error [OF *(3) assms [OF *(1,2)], where e = OutOfBounds] show False by simp
qed

subsection \<open>The header checks of assign and the class invariant\<close>

lemma cast_FileHeader_long:
  "sizeof_FileHeader \<le> length src \<Longrightarrow>
   \<exists>dt z hs. cast_FileHeader src 0 = Some \<lparr>FileHeader.magic = [src ! 0, src ! 1],
      descriptorType = dt, zero = z, FileHeader.headerSize = hs, contentType = the (rd_uint32 src 8)\<rparr>"
  by (simp add: cast_FileHeader_def rd_uint8_def rd_uint16_def rd_uint32_def sizes)

lemma cast_FileHeader_take:
  "sizeof_FileHeader \<le> n \<Longrightarrow> n \<le> length src \<Longrightarrow> cast_FileHeader (take n src) 0 = cast_FileHeader src 0"
  by (simp add: cast_FileHeader_def rd_uint8_def rd_uint16_def rd_uint32_def sizes)

lemma cast_FileHeader_magic:
  "cast_FileHeader src 0 = Some header \<Longrightarrow> \<exists>m0 m1. FileHeader.magic header = [m0, m1]"
  by (auto simp: cast_FileHeader_def split: option.splits)

lemma invariant_null: "invariant T s \<lparr>m_data = None, m_header = None\<rparr>"
  by (simp add: invariant_def)

lemma invariant_default:
  "invariant T (fst (PackFile_default s)) (snd (PackFile_default s))"
  by (simp add: PackFile_default_def new_DataVector_def invariant_def cell_at_append)

lemma invariant_assign:
  assumes "invariant T s this" and "assign T s this p_data p_size = Inr (ok, s', this')"
  shows "invariant T s' this'"
proof (cases ok)
  case False
  with assms(2) have "s' = s \<and> this' = this" by (auto dest: assign_False)
  with assms(1) show ?thesis by simp
next
  case True
  with assms(2) have "assign T s this p_data p_size = Inr (True, s', this')" by simp
  from assign_True [OF this]
  obtain src header where *: "deref s p_data = Inr src" "sizeof_FileHeader \<le> unat p_size"
      "unat p_size \<le> length src" "cast_FileHeader src 0 = Some header"
      "FileHeader.magic header ! 0 = 0x50" "FileHeader.magic header ! 1 = 0x46"
      "contentType header = T"
      "this' = \<lparr>m_data = Some (length s), m_header = Some (length s, 0)\<rparr>"
      "s' = (release (s @ [Some (replicate (unat p_size) 0, 1)]) (m_data this))
                    [length s := Some (take (unat p_size) src, 1)]"
    by blast
  from cast_FileHeader_magic [OF *(4)] *(5,6) have m: "FileHeader.magic header = [0x50, 0x46]"
    by auto
  have v: "valid_header T (take (unat p_size) src)"
    using *(2-4,7) m by (simp add: valid_header_def cast_FileHeader_take)
  have ne: "take (unat p_size) src \<noteq> []"
    using *(2,3) by (auto simp: sizes)
  have "cell_at s' (length s) = Some (take (unat p_size) src, 1)"
    by (simp add: *(9) cell_at_update)
  with v ne show ?thesis
    by (simp add: invariant_def *(8))
qed

lemma invariant_load:
  assumes "invariant T s this" and "load T fs s this p_filename = Inr (ok, s', this')"
  shows "invariant T s' this'"
  using assms invariant_assign [OF assms(1)]
  by (auto simp: load_def Let_def split: option.splits)

lemma invariant_PackFile_copy:
  assumes "invariant T s p_other" and "PackFile_copy s p_other = Inr (s', new)"
  shows "invariant T s' new \<and> invariant T s' p_other"
  using assms
  by (auto simp: PackFile_copy_def header_of_data_def invariant_def cell_at_acquire Let_def
           split: option.splits sum.splits prod.splits if_splits)

lemma invariant_operator_assign:
  assumes "invariant T s this" and "invariant T s p_other"
    and "operator_assign s this p_other = Inr (s', this')"
  shows "invariant T s' this' \<and> invariant T s' p_other"
  using assms
  by (auto simp: operator_assign_def header_of_data_def invariant_def cell_at_acquire cell_at_release Let_def
           split: option.splits sum.splits prod.splits if_splits)

lemma invariant_PackFile_data:
  assumes "PackFile_data T s p_data p_size = Inr (s', new)"
  shows "invariant T s' new"
  using assms
  by (auto simp: PackFile_data_def split: sum.splits prod.splits
           dest: invariant_assign [OF invariant_null])

lemma invariant_PackFile_file:
  assumes "PackFile_file T fs s p_filename = Inr (s', new)"
  shows "invariant T s' new"
  using assms
  by (auto simp: PackFile_file_def split: sum.splits prod.splits
           dest: invariant_load [OF invariant_null])

lemma invariant_chunk_no_error:
  assumes "invariant T s this"
    and "\<And>a v n. m_data this = Some a \<Longrightarrow> cell_at s a = Some (v, n) \<Longrightarrow> no_wrap W (vdata a) v"
  shows "chunk W vdata s this i \<noteq> Some (Inl e)"
proof
  assume c: "chunk W vdata s this i = Some (Inl e)"
  with assms(1) obtain a v n where *: "m_data this = Some a" "cell_at s a = Some (v, n)"
      "chunk_loop W (vdata a) a v i (vdata a + sizeof_FileHeader) = Some (Inl e)"
    by (auto simp: chunk_def invariant_def split: option.splits prod.splits if_splits)
  from chunk_loop_no_error [OF *(3) assms(2) [OF *(1,2)], where e = e] show False by simp
qed

lemma invariant_meaning:
  assumes "invariant T s this"
  shows "case buffer_of s this of
           None \<Rightarrow> m_header this = None
         | Some v \<Rightarrow> if v = [] then m_header this = None
                     else valid_header T v \<and> m_header this = Some (the (m_data this), 0)"
  using assms
  by (auto simp: invariant_def buffer_of_def split: option.splits prod.splits if_splits)

lemma load_is_assign:
  assumes "load T fs s this p_filename = Inr r"
  shows "\<exists>p_data p_size. assign T s this p_data p_size = Inr r"
proof (cases "fs p_filename")
  case None
  with assms have "assign T s this Nullptr 0 = Inr r" by (simp add: load_def assign_def)
  then show ?thesis by blast
next
  case (Some content)
  with assms show ?thesis by (auto simp: load_def Let_def)
qed

lemma assign_keeps_shared:
  assumes "assign T s this p_data p_size = Inr (ok, s', this')"
    and "m_data this = Some a" and "cell_at s a = Some (v, Suc c)" and "0 < c"
  shows "\<exists>c'. cell_at s' a = Some (v, c')"
proof (cases ok)
  case False
  with assms(1) have "s' = s" by (auto dest: assign_False)
  with assms(3) show ?thesis by simp
next
  case True
  with assms(1) have "assign T s this p_data p_size = Inr (True, s', this')" by simp
  from assign_True [OF this]
  obtain src where s': "s' = (release (s @ [Some (replicate (unat p_size) 0, 1)]) (m_data this))
                    [length s := Some (take (unat p_size) src, 1)]"
    by auto
  have "a < length s" using assms(3) by (rule cell_at_length)
  then show ?thesis
    using assms(2-4) by (simp add: s' cell_at_update cell_at_release cell_at_append)
qed

lemma chunk_same_buffer:
  assumes "m_data this = Some a" and "cell_at s a = Some (v, n)" and "cell_at s' a = Some (v, n')"
  shows "chunk W vdata s' this i = chunk W vdata s this i"
  using assms by (simp add: chunk_def split: option.splits)

lemma chunk_pointer_addr:
  assumes "chunk W vdata s this i = Some (Inr (Some (a', off), n))"
  shows "m_data this = Some a'"
  using assms
  by (auto simp: chunk_def split: option.splits prod.splits dest: chunk_loop_addr)

subsection \<open>Unfolding the definitions on concrete buffers\<close>

lemmas fixture_defs = one_chunk_file_def scenario_buffer_def two_matching_chunks_def FileHeader_bytes_def ChunkHeader_bytes_def
  le_uint16_def le_uint32_def loaded_at_0_def

lemmas scan_defs = chunk_def cell_at_def chunk_loop.simps ChunkHeader_at_def cast_ChunkHeader_def
  rd_uint8_def rd_uint16_def rd_uint32_def chunkSize_of_def po_size_of_def sizes layout_def fits_def

lemmas class_defs = assign_def deref_def PackFile_copy_def operator_assign_def PackFile_default_def
  header_of_data_def acquire_def release_def new_DataVector_def memcpy_to_def cast_FileHeader_def
  invariant_def valid_header_def


text \<open>The bytes of the files the theorems below look at.\<close>

lemma scenario_buffer_bytes:
  "scenario_buffer 0x54414D41 0x544D5247 [1, 2, 3, 4, 5, 6, 7, 8]
     = [0x50, 0x46, 0, 0, 0, 0, 0x10, 0, 0x41, 0x4D, 0x41, 0x54,
        0x47, 0x52, 0x4D, 0x54, 8, 0, 0, 0, 1, 0, 12, 0, 0, 0, 0, 0,
        1, 2, 3, 4, 5, 6, 7, 8]"
  by (simp add: fixture_defs)

lemma truncated_file_bytes:
  "one_chunk_file 0x54414D41 0x544D5247 24 16 [1, 2, 3, 4]
     = [0x50, 0x46, 0, 0, 0, 0, 12, 0, 0x41, 0x4D, 0x41, 0x54,
        0x47, 0x52, 0x4D, 0x54, 24, 0, 0, 0, 1, 0, 16, 0, 0, 0, 0, 0,
        1, 2, 3, 4]"
  by (simp add: fixture_defs)

lemma zero_span_file_bytes:
  "one_chunk_file 0x54414D41 0x544D5247 0xFFFFFFF8 16 []
     = [0x50, 0x46, 0, 0, 0, 0, 12, 0, 0x41, 0x4D, 0x41, 0x54,
        0x47, 0x52, 0x4D, 0x54, 0xF8, 0xFF, 0xFF, 0xFF, 1, 0, 16, 0, 0, 0, 0, 0]"
  by (simp add: fixture_defs)

lemma short_span_file_bytes:
  "one_chunk_file 0x54414D41 0x544D5247 0 16 []
     = [0x50, 0x46, 0, 0, 0, 0, 12, 0, 0x41, 0x4D, 0x41, 0x54,
        0x47, 0x52, 0x4D, 0x54, 0, 0, 0, 0, 1, 0, 16, 0, 0, 0, 0, 0]"
  by (simp add: fixture_defs)

lemma two_matching_chunks_bytes:
  "two_matching_chunks
     = [0x50, 0x46, 0, 0, 0, 0, 12, 0, 0x41, 0x4D, 0x41, 0x54,
        0x58, 0x58, 0x58, 0x58, 8, 0, 0, 0, 1, 0, 16, 0, 0, 0, 0, 0,
        0x47, 0x52, 0x4D, 0x54, 12, 0, 0, 0, 1, 0, 16, 0, 0, 0, 0, 0, 1, 2, 3, 4,
        0x47, 0x52, 0x4D, 0x54, 10, 0, 0, 0, 1, 0, 16, 0, 0, 0, 0, 0, 5, 6]"
  by (simp add: fixture_defs)

text \<open>
  A PackFile that is the only owner of its vector and is assigned from a pointer into that
  vector: the header is read and accepted, \<^verbatim>\<open>reset\<close> destroys the vector, and \<^verbatim>\<open>memcpy\<close>
  reads through the dangling pointer.
\<close>

lemma assign_from_own_vector:
  "assign 0x54414D41 [Some (two_matching_chunks, 1)] loaded_at_0 (Inside 0 0) 66 = Inl UseAfterFree"
  by (simp add: class_defs cell_at_def fixture_defs rd_uint8_def rd_uint16_def rd_uint32_def sizes)

section \<open>The claims\<close>

subsection \<open>C1: the typed lookup when no chunk is found\<close>

text \<open>
  C1 says that \<^verbatim>\<open>chunk<Id>()\<close> returns the absent result and does not call the record
  constructor when the raw scan finds no chunk. The code does otherwise: on a
  default-constructed (empty) PackFile the raw lookup returns the null pointer and size 0,
  and \<^verbatim>\<open>chunk<TId>()\<close> passes exactly these to the constructor and returns a
  \<^verbatim>\<open>shared_ptr\<close> that holds the constructed record, for every \<^verbatim>\<open>TId\<close>. The comment
  above the function says the \<^verbatim>\<open>shared_ptr\<close> holds \<^verbatim>\<open>nullptr\<close> when no chunk is found.
\<close>

theorem chunk_typed_constructs_when_absent:
  "chunk W vdata (fst (PackFile_default [])) (snd (PackFile_default [])) TId = Some (Inr (None, 0))
   \<and> chunk_typed W vdata Type (fst (PackFile_default [])) (snd (PackFile_default [])) TId
       = Some (Inr (Some (Type (fst (PackFile_default [])) None 0), [(None, 0)]))"
  by (simp add: chunk_typed_def chunk_def PackFile_default_def new_DataVector_def)

subsection \<open>C2: a chunk that runs past the end of the buffer\<close>

text \<open>
  C2 says that the lookup never returns a view that extends past the end of the buffer.
  The loop does stop at a chunk table cut off inside a header (\<open>chunk_loop_end\<close>), and
  where no pointer addition wraps (a 64-bit build) it never reads a header outside the
  vector (\<open>chunk_no_out_of_bounds_read\<close>). But the branch that returns a match checks
  nothing: for a file of one chunk whose header declares 16 payload bytes
  (\<^verbatim>\<open>nextChunkOffset\<close> 24, \<^verbatim>\<open>headerSize\<close> 16) and that holds fewer, the lookup of the
  chunk's magic returns the pointer at offset 28 with size 16, a view that ends after the
  end of the vector, wherever the vector lies.
\<close>

theorem chunk_view_past_end:
  assumes "32 \<le> W" and "length payload < 16"
  shows "assign X [] \<lparr>m_data = None, m_header = None\<rparr> (Outside (one_chunk_file X Y 24 16 payload))
             (word_of_nat (28 + length payload))
           = Inr (True, [Some (one_chunk_file X Y 24 16 payload, 1)], loaded_at_0)
         \<and> chunk W vdata [Some (one_chunk_file X Y 24 16 payload, 1)] loaded_at_0 Y
           = Some (Inr (Some (0, 28), 16))
         \<and> view_bytes [Some (one_chunk_file X Y 24 16 payload, 1)] (Some (0, 28)) 16 = None"
proof -
  let ?h = "\<lparr>ChunkHeader.magic = Y, nextChunkOffset = 24, version = 1,
             ChunkHeader.headerSize = 16, descriptorOffset = 0\<rparr>"
  have "chunkSize_of W ?h = 32"
    using chunkSize_small [OF assms(1), of 24] by simp
  then have "po_size_of W ?h = 16"
    using po_size_of_word [OF assms(1), of ?h] by simp
  then have "chunk W vdata [Some (one_chunk_file X Y 24 16 payload, 1)] loaded_at_0 Y
           = Some (Inr (Some (0, 28), 16))"
    by (simp add: chunk_loaded_at_0 chunk_loop_one_chunk_file)
  moreover have "view_bytes [Some (one_chunk_file X Y 24 16 payload, 1)] (Some (0, 28)) 16 = None"
    using assms(2) by (simp add: view_bytes_def cell_at_def)
  ultimately show ?thesis
    using assign_one_chunk_file [of payload X Y 24 16] assms(2) by simp
qed

theorem chunk_view_past_end_witness:
  "(32::nat) \<le> 64 \<and> length [1, 2, 3, 4 :: byte] < 16
   \<and> assign 0x54414D41 [] \<lparr>m_data = None, m_header = None\<rparr>
         (Outside (one_chunk_file 0x54414D41 0x544D5247 24 16 [1, 2, 3, 4])) 32
       = Inr (True, [Some (one_chunk_file 0x54414D41 0x544D5247 24 16 [1, 2, 3, 4], 1)], loaded_at_0)
   \<and> length (one_chunk_file 0x54414D41 0x544D5247 24 16 [1, 2, 3, 4]) = 32
   \<and> chunk 64 layout [Some (one_chunk_file 0x54414D41 0x544D5247 24 16 [1, 2, 3, 4], 1)] loaded_at_0 0x544D5247
       = Some (Inr (Some (0, 28), 16))
   \<and> view_bytes [Some (one_chunk_file 0x54414D41 0x544D5247 24 16 [1, 2, 3, 4], 1)] (Some (0, 28)) 16 = None"
  using chunk_view_past_end [where W = 64 and payload = "[1, 2, 3, 4]" and X = "0x54414D41" and Y = "0x544D5247"
      and vdata = layout]
  by simp

subsection \<open>C3: spans of zero and header sizes larger than the span\<close>

text \<open>
  C3 says that the scan always terminates and that a chunk whose span is zero, or whose
  \<^verbatim>\<open>headerSize\<close> exceeds its span, ends the scan without underflow. Where no pointer
  addition wraps (a 64-bit build) the span is at least 8 and the scan terminates
  (\<open>chunk_terminates\<close>). With a \<^verbatim>\<open>size_t\<close> of 32 bits the span of a chunk with
  \<^verbatim>\<open>nextChunkOffset = 0xFFFFFFF8\<close> wraps to zero, and the lookup of any other identifier
  never returns. Whatever the width, a chunk with \<^verbatim>\<open>nextChunkOffset\<close> 0 and
  \<^verbatim>\<open>headerSize\<close> 16 (span 8) is not taken as the end of the scan: the lookup of its magic
  returns a pointer with the size 8 - 16 wrapped to \<^verbatim>\<open>0xFFFFFFF8\<close>.
\<close>

theorem chunk_scan_malformed_span:
  assumes "32 \<le> W" and "Z \<noteq> Y" and "length payload \<le> 16"
    and "fits 32 (vdata 0) (one_chunk_file X Y 0xFFFFFFF8 16 payload)"
  shows "assign X [] \<lparr>m_data = None, m_header = None\<rparr> (Outside (one_chunk_file X Y 0xFFFFFFF8 16 payload))
             (word_of_nat (28 + length payload))
           = Inr (True, [Some (one_chunk_file X Y 0xFFFFFFF8 16 payload, 1)], loaded_at_0)
         \<and> chunk 32 vdata [Some (one_chunk_file X Y 0xFFFFFFF8 16 payload, 1)] loaded_at_0 Z = None
         \<and> assign X [] \<lparr>m_data = None, m_header = None\<rparr> (Outside (one_chunk_file X Y 0 16 payload))
             (word_of_nat (28 + length payload))
           = Inr (True, [Some (one_chunk_file X Y 0 16 payload, 1)], loaded_at_0)
         \<and> chunk W vdata [Some (one_chunk_file X Y 0 16 payload, 1)] loaded_at_0 Y
           = Some (Inr (Some (0, 28), 0xFFFFFFF8))"
proof -
  let ?h = "\<lparr>ChunkHeader.magic = Y, nextChunkOffset = 0xFFFFFFF8, version = 1,
             ChunkHeader.headerSize = 16, descriptorOffset = 0\<rparr>"
  let ?u = "\<lparr>ChunkHeader.magic = Y, nextChunkOffset = 0, version = 1,
             ChunkHeader.headerSize = 16, descriptorOffset = 0\<rparr>"
  let ?v = "one_chunk_file X Y 0xFFFFFFF8 16 payload"
  have z: "chunkSize_of 32 ?h = 0"
    by (simp add: chunkSize_of_def sizes)
  have lt: "vdata 0 + sizeof_FileHeader < 2 ^ 32"
    using assms(4) by (simp add: fits_def sizes)
  have "chunk_loop 32 (vdata 0) 0 ?v Z (vdata 0 + sizeof_FileHeader) = None"
  proof (rule chunk_loop_zero_span [where h = ?h])
    show "ChunkHeader_at (vdata 0) ?v (vdata 0 + sizeof_FileHeader) = Some ?h"
      using cast_ChunkHeader_one_chunk_file [of X Y "0xFFFFFFF8" 16 payload] by (simp add: sizes)
  qed (use assms(2) z lt in \<open>simp_all add: sizes\<close>)
  then have 1: "chunk 32 vdata [Some (?v, 1)] loaded_at_0 Z = None"
    by (simp add: chunk_loaded_at_0)
  have "chunkSize_of W ?u = 8"
    using chunkSize_small [OF assms(1), of 0] by simp
  then have "po_size_of W ?u = 0xFFFFFFF8"
    using po_size_of_word [OF assms(1), of ?u] by simp
  then have 2: "chunk W vdata [Some (one_chunk_file X Y 0 16 payload, 1)] loaded_at_0 Y
           = Some (Inr (Some (0, 28), 0xFFFFFFF8))"
    by (simp add: chunk_loaded_at_0 chunk_loop_one_chunk_file)
  show ?thesis
    using 1 2 assign_one_chunk_file [of payload X Y] assms(3) by simp
qed

theorem chunk_scan_malformed_span_witness:
  "(32::nat) \<le> 64 \<and> (0x58585858 :: uint32) \<noteq> 0x544D5247 \<and> length ([] :: byte list) \<le> 16
   \<and> fits 32 (layout 0) (one_chunk_file 0x54414D41 0x544D5247 0xFFFFFFF8 16 [])
   \<and> chunk 32 layout [Some (one_chunk_file 0x54414D41 0x544D5247 0xFFFFFFF8 16 [], 1)] loaded_at_0 0x58585858
       = None
   \<and> chunk 64 layout [Some (one_chunk_file 0x54414D41 0x544D5247 0 16 [], 1)] loaded_at_0 0x544D5247
       = Some (Inr (Some (0, 28), 0xFFFFFFF8))"
proof -
  have f: "fits 32 (layout 0) (one_chunk_file 0x54414D41 0x544D5247 0xFFFFFFF8 16 [])"
    by (simp add: fits_def layout_def)
  from chunk_scan_malformed_span [where W = 64 and payload = "[]" and X = "0x54414D41" and Y = "0x544D5247"
      and Z = "0x58585858" and vdata = layout, OF _ _ _ f] f
  show ?thesis by simp
qed

subsection \<open>C4: the scenario of the specification\<close>

text \<open>
  C4 says that on the scenario buffer (container type \<open>X\<close>, one chunk with magic \<open>Y\<close>,
  \<^verbatim>\<open>nextChunkOffset\<close> 8, \<^verbatim>\<open>headerSize\<close> 12, eight payload bytes) the lookup of \<open>Y\<close>
  returns the eight payload bytes. It does not: the total span is 8 + 8 = 16 and the size
  returned is 16 - 12 = 4, so the view is the first four payload bytes.
\<close>

theorem scenario_lookup_counterexample:
  "assign 0x54414D41 [] \<lparr>m_data = None, m_header = None\<rparr>
       (Outside (scenario_buffer 0x54414D41 0x544D5247 [1, 2, 3, 4, 5, 6, 7, 8])) 36
     = Inr (True, [Some (scenario_buffer 0x54414D41 0x544D5247 [1, 2, 3, 4, 5, 6, 7, 8], 1)], loaded_at_0)
   \<and> chunk 64 layout [Some (scenario_buffer 0x54414D41 0x544D5247 [1, 2, 3, 4, 5, 6, 7, 8], 1)] loaded_at_0
       0x544D5247
     = Some (Inr (Some (0, 28), 4))
   \<and> view_bytes [Some (scenario_buffer 0x54414D41 0x544D5247 [1, 2, 3, 4, 5, 6, 7, 8], 1)] (Some (0, 28)) 4
     = Some [1, 2, 3, 4]
   \<and> view_bytes [Some (scenario_buffer 0x54414D41 0x544D5247 [1, 2, 3, 4, 5, 6, 7, 8], 1)] (Some (0, 28)) 4
     \<noteq> Some [1, 2, 3, 4, 5, 6, 7, 8]"
  by (simp add: assign_def deref_def new_DataVector_def release_def memcpy_to_def cast_FileHeader_def
        view_bytes_def fixture_defs scan_defs)

text \<open>
  C4 as amended: on the scenario buffer, loaded by \<^verbatim>\<open>assign\<close>, the lookup of \<open>Y\<close> returns
  the view that starts at the first payload byte (offset 28) and has length 4, that is the
  first four of the eight payload bytes; the lookup of any \<open>Z\<close> other than \<open>Y\<close> returns
  the null pointer with size 0. The vector lies inside the address space.
\<close>

theorem scenario_lookup:
  assumes "32 \<le> W" and "length payload = 8" and "Z \<noteq> Y"
    and "fits W (vdata 0) (scenario_buffer X Y payload)"
  shows "assign X [] \<lparr>m_data = None, m_header = None\<rparr> (Outside (scenario_buffer X Y payload)) 36
           = Inr (True, [Some (scenario_buffer X Y payload, 1)], loaded_at_0)
         \<and> chunk W vdata [Some (scenario_buffer X Y payload, 1)] loaded_at_0 Y = Some (Inr (Some (0, 28), 4))
         \<and> view_bytes [Some (scenario_buffer X Y payload, 1)] (Some (0, 28)) 4 = Some (take 4 payload)
         \<and> chunk W vdata [Some (scenario_buffer X Y payload, 1)] loaded_at_0 Z = Some (Inr (None, 0))"
proof -
  let ?v = "scenario_buffer X Y payload"
  let ?b = "vdata 0"
  let ?h = "\<lparr>ChunkHeader.magic = Y, nextChunkOffset = 8, version = 1,
             ChunkHeader.headerSize = 12, descriptorOffset = 0\<rparr>"
  have a: "assign X [] \<lparr>m_data = None, m_header = None\<rparr> (Outside ?v) 36
             = Inr (True, [Some (?v, 1)], loaded_at_0)"
    by (rule assign_fresh [OF cast_FileHeader_scenario_buffer]) (simp_all add: assms(2) sizes)
  have cs: "chunkSize_of W ?h = 16"
    using chunkSize_small [OF assms(1), of 8] by simp
  have po: "po_size_of W ?h = 4"
    using po_size_of_word [OF assms(1), of ?h] cs by simp
  have nw: "(?b + 12 + 16) mod 2 ^ W = ?b + 28"
    using assms(2,4) by (simp add: fits_def)
  have st: "chunk_loop W ?b 0 ?v i (?b + 12) =
           (if Y = i then Some (Inr (Some (0, 28), 4)) else chunk_loop W ?b 0 ?v i (?b + 28))" for i
  proof -
    have "chunk_loop W ?b 0 ?v i (?b + 12) =
            (if ChunkHeader.magic ?h = i
             then Some (Inr (Some (0, 12 + sizeof_ChunkHeader), po_size_of W ?h))
             else chunk_loop W ?b 0 ?v i ((?b + 12 + chunkSize_of W ?h) mod 2 ^ W))"
      by (rule chunk_loop_step) (simp_all add: cast_ChunkHeader_scenario_buffer assms(2) sizes)
    from this [unfolded cs po nw] show ?thesis by (simp add: sizes)
  qed
  have e: "chunk_loop W ?b 0 ?v i (?b + 28) = Some (Inr (None, 0))" for i
    by (rule chunk_loop_end) (simp add: assms(2) sizes)
  have c: "chunk W vdata [Some (?v, 1)] loaded_at_0 i = chunk_loop W ?b 0 ?v i (?b + 12)" for i
    by (simp add: chunk_def loaded_at_0_def cell_at_def sizes)
  have v: "view_bytes [Some (?v, 1)] (Some (0, 28)) 4 = Some (take 4 payload)"
    by (simp add: view_bytes_def cell_at_def assms(2) scenario_buffer_def FileHeader_bytes_def)
  show ?thesis using a c st e v assms(3) by simp
qed

theorem scenario_lookup_witness:
  "(32::nat) \<le> 64 \<and> length [1, 2, 3, 4, 5, 6, 7, 8 :: byte] = 8 \<and> (0x58585858 :: uint32) \<noteq> 0x544D5247
   \<and> fits 64 (layout 0) (scenario_buffer 0x54414D41 0x544D5247 [1, 2, 3, 4, 5, 6, 7, 8])
   \<and> chunk 64 layout [Some (scenario_buffer 0x54414D41 0x544D5247 [1, 2, 3, 4, 5, 6, 7, 8], 1)] loaded_at_0
         0x544D5247
     = Some (Inr (Some (0, 28), 4))
   \<and> view_bytes [Some (scenario_buffer 0x54414D41 0x544D5247 [1, 2, 3, 4, 5, 6, 7, 8], 1)] (Some (0, 28)) 4
     = Some [1, 2, 3, 4]
   \<and> chunk 64 layout [Some (scenario_buffer 0x54414D41 0x544D5247 [1, 2, 3, 4, 5, 6, 7, 8], 1)] loaded_at_0
         0x58585858
     = Some (Inr (None, 0))"
proof -
  have f: "fits 64 (layout 0) (scenario_buffer 0x54414D41 0x544D5247 [1, 2, 3, 4, 5, 6, 7, 8])"
    by (simp add: fits_def layout_def)
  from scenario_lookup [where W = 64 and payload = "[1, 2, 3, 4, 5, 6, 7, 8]" and Z = "0x58585858"
      and Y = "0x544D5247" and X = "0x54414D41" and vdata = layout, OF _ _ _ f] f
  show ?thesis by simp
qed

subsection \<open>C5: a rejected buffer leaves the PackFile as it was\<close>

text \<open>
  C5: when the length is smaller than the size of the file header, or the first two bytes
  are not \<^verbatim>\<open>'P'\<close>, \<^verbatim>\<open>'F'\<close>, or the content type is not \<^verbatim>\<open>TFileType\<close>, \<^verbatim>\<open>assign\<close> returns
  \<^verbatim>\<open>false\<close> and the store and the object are the ones it was called with: the PackFile
  keeps its vector, its header view and so every chunk view. The pointer addresses at least
  \<open>p_size\<close> readable bytes \<open>src\<close>, outside the store or inside one of its vectors, as a
  caller of \<^verbatim>\<open>assign\<close> has to ensure. A null pointer is rejected the same way.
\<close>

theorem assign_rejects_and_keeps_state:
  assumes "deref s p_data = Inr src" and "unat p_size \<le> length src"
    and "unat p_size < sizeof_FileHeader \<or> src ! 0 \<noteq> 0x50 \<or> src ! 1 \<noteq> 0x46
           \<or> rd_uint32 src 8 \<noteq> Some TFileType"
  shows "assign TFileType s this p_data p_size = Inr (False, s, this)
         \<and> assign TFileType s this Nullptr p_size = Inr (False, s, this)"
proof (cases "unat p_size < sizeof_FileHeader")
  case True
  then show ?thesis by (simp add: assign_def)
next
  case False
  with assms(2) have l: "sizeof_FileHeader \<le> length src" by simp
  then have "rd_uint32 src 8 = Some (the (rd_uint32 src 8))"
    by (simp add: rd_uint32_def sizes)
  with assms(3) False
  have "src ! 0 \<noteq> 0x50 \<or> src ! 1 \<noteq> 0x46 \<or> the (rd_uint32 src 8) \<noteq> TFileType"
    by auto
  then show ?thesis
    using False assms(1) cast_FileHeader_long [OF l] by (auto simp: assign_def)
qed

theorem assign_rejects_and_keeps_state_witness:
  "assign 0x54414D41 [Some (two_matching_chunks, 1)] loaded_at_0 (Outside [0x50, 0x46, 0, 0]) 4
     = Inr (False, [Some (two_matching_chunks, 1)], loaded_at_0)
   \<and> assign 0x54414D41 [Some (two_matching_chunks, 1)] loaded_at_0
       (Outside (one_chunk_file 0x4C444F4D 0x544D5247 16 16 [1, 2, 3, 4, 5, 6, 7, 8])) 36
     = Inr (False, [Some (two_matching_chunks, 1)], loaded_at_0)
   \<and> assign 0x54414D41 [Some (two_matching_chunks, 1)] loaded_at_0
       (Outside (0x58 # tl (one_chunk_file 0x54414D41 0x544D5247 16 16 [1, 2, 3, 4, 5, 6, 7, 8]))) 36
     = Inr (False, [Some (two_matching_chunks, 1)], loaded_at_0)
   \<and> assign 0x54414D41 [Some (two_matching_chunks, 1)] loaded_at_0 (Inside 0 28) 38
     = Inr (False, [Some (two_matching_chunks, 1)], loaded_at_0)
   \<and> chunk 64 layout [Some (two_matching_chunks, 1)] loaded_at_0 0x544D5247 = Some (Inr (Some (0, 44), 4))"
proof -
  note a = assign_rejects_and_keeps_state
    [where TFileType = "0x54414D41" and s = "[Some (two_matching_chunks, 1)]" and this = loaded_at_0]
  have "assign 0x54414D41 [Some (two_matching_chunks, 1)] loaded_at_0 (Outside [0x50, 0x46, 0, 0]) 4
     = Inr (False, [Some (two_matching_chunks, 1)], loaded_at_0)"
    using a [where p_data = "Outside [0x50, 0x46, 0, 0]" and src = "[0x50, 0x46, 0, 0]" and p_size = 4]
    by (simp add: sizes)
  moreover have "assign 0x54414D41 [Some (two_matching_chunks, 1)] loaded_at_0
       (Outside (one_chunk_file 0x4C444F4D 0x544D5247 16 16 [1, 2, 3, 4, 5, 6, 7, 8])) 36
     = Inr (False, [Some (two_matching_chunks, 1)], loaded_at_0)"
    using a [where p_data = "Outside (one_chunk_file 0x4C444F4D 0x544D5247 16 16 [1, 2, 3, 4, 5, 6, 7, 8])"
               and src = "one_chunk_file 0x4C444F4D 0x544D5247 16 16 [1, 2, 3, 4, 5, 6, 7, 8]" and p_size = 36]
    by (simp add: sizes one_chunk_file_def FileHeader_bytes_def ChunkHeader_bytes_def le_uint16_def
          le_uint32_def rd_uint32_def)
  moreover have "assign 0x54414D41 [Some (two_matching_chunks, 1)] loaded_at_0
       (Outside (0x58 # tl (one_chunk_file 0x54414D41 0x544D5247 16 16 [1, 2, 3, 4, 5, 6, 7, 8]))) 36
     = Inr (False, [Some (two_matching_chunks, 1)], loaded_at_0)"
    using a [where p_data = "Outside (0x58 # tl (one_chunk_file 0x54414D41 0x544D5247 16 16 [1, 2, 3, 4, 5, 6, 7, 8]))"
               and src = "0x58 # tl (one_chunk_file 0x54414D41 0x544D5247 16 16 [1, 2, 3, 4, 5, 6, 7, 8])"
               and p_size = 36]
    by (simp add: sizes one_chunk_file_def FileHeader_bytes_def ChunkHeader_bytes_def le_uint16_def
          le_uint32_def)
  moreover have "assign 0x54414D41 [Some (two_matching_chunks, 1)] loaded_at_0 (Inside 0 28) 38
     = Inr (False, [Some (two_matching_chunks, 1)], loaded_at_0)"
    using a [where p_data = "Inside 0 28" and src = "drop 28 two_matching_chunks" and p_size = 38]
    by (simp add: sizes deref_def cell_at_def fixture_defs)
  moreover have "chunk 64 layout [Some (two_matching_chunks, 1)] loaded_at_0 0x544D5247
      = Some (Inr (Some (0, 44), 4))"
    by (simp add: fixture_defs scan_defs)
  ultimately show ?thesis by simp
qed

subsection \<open>C6: the span of a chunk and the payload returned\<close>




subsection \<open>C7: the class invariant\<close>

text \<open>
  C7 says that every operation keeps the invariant. The operations that return do
  (\<open>invariant_default\<close>, \<open>invariant_assign\<close>, \<open>invariant_load\<close>, \<open>invariant_PackFile_copy\<close>,
  \<open>invariant_operator_assign\<close>, \<open>invariant_PackFile_data\<close>, \<open>invariant_PackFile_file\<close>). But
  the copy operations do not always return. The constructors from a file name and from
  data leave \<^verbatim>\<open>m_data\<close> a null \<^verbatim>\<open>shared_ptr\<close> when their \<^verbatim>\<open>load\<close> or \<^verbatim>\<open>assign\<close> fails,
  whereas the default constructor gives it a new vector; such a PackFile has no header view
  and satisfies the invariant, and the copy constructor and the copy assignment
  dereference its null \<^verbatim>\<open>m_data\<close> in \<^verbatim>\<open>m_data->size()\<close>. Nor does \<^verbatim>\<open>assign\<close> always return:
  given a pointer into the vector that the PackFile alone owns, it destroys the vector
  before it copies from it (\<open>assign_from_own_vector\<close>).
\<close>

theorem copy_of_failed_PackFile:
  "PackFile_data TFileType s Nullptr 0 = Inr (s, \<lparr>m_data = None, m_header = None\<rparr>)
   \<and> invariant TFileType s \<lparr>m_data = None, m_header = None\<rparr>
   \<and> PackFile_copy s \<lparr>m_data = None, m_header = None\<rparr> = Inl NullDeref
   \<and> operator_assign s (snd (PackFile_default s)) \<lparr>m_data = None, m_header = None\<rparr> = Inl NullDeref"
  by (simp add: PackFile_data_def assign_def invariant_def PackFile_copy_def operator_assign_def
        header_of_data_def acquire_def)

subsection \<open>C8: a copy is not affected when the original is reassigned\<close>

text \<open>
  C8: let \<open>B\<close> be a copy of the PackFile \<open>A\<close>, and let \<open>A\<close> then be given new data by
  \<^verbatim>\<open>assign\<close> or \<^verbatim>\<open>load\<close> (whether that succeeds or not, and wherever the pointer given to
  \<^verbatim>\<open>assign\<close> points). Then \<open>B\<close> still owns the vector \<open>A\<close> had, with the same bytes, and a
  view obtained from \<open>B\<close> before is what the same lookup returns afterwards and denotes the
  same bytes.
\<close>

theorem copy_isolated_from_reassign:
  assumes "invariant T s A"
    and "PackFile_copy s A = Inr (s1, B)"
    and "assign T s1 A p_data p_size = Inr (ok, s2, A') \<or> load T fs s1 A p_filename = Inr (ok, s2, A')"
    and "chunk W vdata s1 B i = Some (Inr (p, n))"
  shows "buffer_of s1 B = buffer_of s A \<and> buffer_of s2 B = buffer_of s1 B \<and> buffer_of s2 B \<noteq> None
         \<and> chunk W vdata s2 B i = Some (Inr (p, n)) \<and> view_bytes s2 p n = view_bytes s1 p n"
proof -
  from assms(1,2) obtain a v c where a: "m_data A = Some a" "m_data B = Some a"
      "cell_at s a = Some (v, c)" "0 < c" "cell_at s1 a = Some (v, Suc c)"
    by (auto simp: PackFile_copy_def header_of_data_def invariant_def cell_at_acquire Let_def
             split: option.splits sum.splits prod.splits if_splits)
  from assms(3) obtain pd ps where "assign T s1 A pd ps = Inr (ok, s2, A')"
    using load_is_assign by blast
  from assign_keeps_shared [OF this a(1,5,4)] obtain c' where c': "cell_at s2 a = Some (v, c')" ..
  have b: "buffer_of s1 B = buffer_of s A" "buffer_of s2 B = buffer_of s1 B" "buffer_of s2 B \<noteq> None"
    using a c' by (simp_all add: buffer_of_def)
  have ch: "chunk W vdata s2 B i = Some (Inr (p, n))"
    using chunk_same_buffer [OF a(2,5) c'] assms(4) by simp
  have "view_bytes s2 p n = view_bytes s1 p n"
  proof (cases p)
    case None
    then show ?thesis by (simp add: view_bytes_def)
  next
    case (Some q)
    obtain a' off where q: "q = (a', off)" by (cases q)
    with Some assms(4) chunk_pointer_addr have "m_data B = Some a'" by blast
    with a(2) have "a' = a" by simp
    with Some q a(5) c' show ?thesis by (simp add: view_bytes_def)
  qed
  with b ch show ?thesis by simp
qed

theorem copy_isolated_from_reassign_witness:
  "invariant 0x54414D41 [Some (two_matching_chunks, 1)] loaded_at_0
   \<and> PackFile_copy [Some (two_matching_chunks, 1)] loaded_at_0
       = Inr ([Some (two_matching_chunks, 2)], loaded_at_0)
   \<and> assign 0x54414D41 [Some (two_matching_chunks, 2)] loaded_at_0
         (Outside (one_chunk_file 0x54414D41 0x544D5247 16 16 [9, 9, 9, 9, 9, 9, 9, 9])) 36
       = Inr (True, [Some (two_matching_chunks, 1),
                     Some (one_chunk_file 0x54414D41 0x544D5247 16 16 [9, 9, 9, 9, 9, 9, 9, 9], 1)],
              \<lparr>m_data = Some 1, m_header = Some (1, 0)\<rparr>)
   \<and> chunk 64 layout [Some (two_matching_chunks, 2)] loaded_at_0 0x544D5247 = Some (Inr (Some (0, 44), 4))
   \<and> chunk 64 layout [Some (two_matching_chunks, 1),
                 Some (one_chunk_file 0x54414D41 0x544D5247 16 16 [9, 9, 9, 9, 9, 9, 9, 9], 1)]
         loaded_at_0 0x544D5247 = Some (Inr (Some (0, 44), 4))
   \<and> view_bytes [Some (two_matching_chunks, 1),
                 Some (one_chunk_file 0x54414D41 0x544D5247 16 16 [9, 9, 9, 9, 9, 9, 9, 9], 1)]
         (Some (0, 44)) 4 = Some [1, 2, 3, 4]"
proof -
  let ?f = "one_chunk_file 0x54414D41 0x544D5247 16 16 [9, 9, 9, 9, 9, 9, 9, 9]"
  let ?s = "[Some (two_matching_chunks, 1 :: nat)]"
  let ?s1 = "[Some (two_matching_chunks, 2 :: nat)]"
  let ?s2 = "[Some (two_matching_chunks, 1 :: nat), Some (?f, 1)]"
  have i: "invariant 0x54414D41 ?s loaded_at_0"
    by (simp add: class_defs cell_at_def fixture_defs rd_uint8_def rd_uint16_def rd_uint32_def)
  have c: "PackFile_copy ?s loaded_at_0 = Inr (?s1, loaded_at_0)"
    by (simp add: PackFile_copy_def header_of_data_def acquire_def cell_at_def loaded_at_0_def
          two_matching_chunks_def one_chunk_file_def FileHeader_bytes_def)
  have a: "assign 0x54414D41 ?s1 loaded_at_0 (Outside ?f) 36
             = Inr (True, ?s2, \<lparr>m_data = Some 1, m_header = Some (1, 0)\<rparr>)"
    by (simp add: class_defs cell_at_def loaded_at_0_def one_chunk_file_def FileHeader_bytes_def
          ChunkHeader_bytes_def le_uint16_def le_uint32_def rd_uint8_def rd_uint16_def rd_uint32_def sizes)
  have k: "chunk 64 layout ?s1 loaded_at_0 0x544D5247 = Some (Inr (Some (0, 44), 4))"
    by (simp add: fixture_defs scan_defs)
  have v: "view_bytes ?s1 (Some (0, 44)) 4 = Some [1, 2, 3, 4]"
    by (simp add: view_bytes_def fixture_defs cell_at_def)
  from copy_isolated_from_reassign [OF i c disjI1 [OF a] k] v
  have "chunk 64 layout ?s2 loaded_at_0 0x544D5247 = Some (Inr (Some (0, 44), 4))
        \<and> view_bytes ?s2 (Some (0, 44)) 4 = Some [1, 2, 3, 4]"
    by simp
  with i c a k show ?thesis by simp
qed

subsection \<open>C9: the first match wins\<close>

text \<open>
  C9: when the chunk headers of a loaded PackFile lie, in storage order, at the offsets
  \<open>qs\<close>, then \<open>q\<close>, then \<open>rest\<close>, no chunk at one of \<open>qs\<close> has the identifier as its magic
  and the chunk at \<open>q\<close> has, then the lookup returns the view of the chunk at \<open>q\<close>,
  whatever chunks follow it (among them further chunks with the same magic). The vector
  lies inside the address space.
\<close>

theorem chunk_first_match:
  assumes "m_header this = Some hp" and "m_data this = Some a" and "cell_at s a = Some (v, n)"
    and "fits W (vdata a) v"
    and "chunk_table W v sizeof_FileHeader (qs @ q # rest)"
    and "\<forall>x \<in> set qs. \<forall>h. cast_ChunkHeader v x = Some h \<longrightarrow> ChunkHeader.magic h \<noteq> p_identifier"
    and "cast_ChunkHeader v q = Some chunkHead" and "ChunkHeader.magic chunkHead = p_identifier"
  shows "chunk W vdata s this p_identifier
           = Some (Inr (Some (a, q + sizeof_ChunkHeader), po_size_of W chunkHead))"
proof -
  have t: "chunk_table W v sizeof_FileHeader (qs @ [q])"
    using assms(5) chunk_table_append [of W v sizeof_FileHeader "qs @ [q]" rest] by simp
  have "chunk W vdata s this p_identifier
          = chunk_loop W (vdata a) a v p_identifier (vdata a + sizeof_FileHeader)"
    using assms(1-3) by (simp add: chunk_def)
  also have "\<dots> = chunk_loop W (vdata a) a v p_identifier (vdata a + q)"
    using assms(4) t assms(6) by (rule chunk_loop_table)
  also have "\<dots> = Some (Inr (Some (a, q + sizeof_ChunkHeader), po_size_of W chunkHead))"
    using chunk_table_last [OF t] assms(7,8) by (simp add: chunk_loop_step)
  finally show ?thesis .
qed

theorem chunk_first_match_witness:
  "fits 64 (layout 0) two_matching_chunks
   \<and> chunk_table 64 two_matching_chunks sizeof_FileHeader [12, 28, 48]
   \<and> map (\<lambda>q. map_option ChunkHeader.magic (cast_ChunkHeader two_matching_chunks q)) [12, 28, 48]
       = [Some 0x58585858, Some 0x544D5247, Some 0x544D5247]
   \<and> chunk 64 layout [Some (two_matching_chunks, 1)] loaded_at_0 0x544D5247 = Some (Inr (Some (0, 44), 4))
   \<and> view_bytes [Some (two_matching_chunks, 1)] (Some (0, 44)) 4 = Some [1, 2, 3, 4]"
proof -
  have f: "fits 64 (layout 0) two_matching_chunks"
    by (simp add: fixture_defs scan_defs)
  have t: "chunk_table 64 two_matching_chunks sizeof_FileHeader ([12] @ 28 # [48])"
    by (simp add: fixture_defs scan_defs)
  have h: "cast_ChunkHeader two_matching_chunks 28
       = Some \<lparr>ChunkHeader.magic = 0x544D5247, nextChunkOffset = 12, version = 1,
               ChunkHeader.headerSize = 16, descriptorOffset = 0\<rparr>"
    by (simp add: fixture_defs scan_defs)
  have n: "\<forall>x \<in> set [12]. \<forall>h. cast_ChunkHeader two_matching_chunks x = Some h
             \<longrightarrow> ChunkHeader.magic h \<noteq> 0x544D5247"
    by (simp add: fixture_defs scan_defs)
  have c: "cell_at [Some (two_matching_chunks, 1 :: nat)] 0 = Some (two_matching_chunks, 1)"
    by (simp add: cell_at_def)
  have "chunk 64 layout [Some (two_matching_chunks, 1)] loaded_at_0 0x544D5247 = Some (Inr (Some (0, 44), 4))"
    using chunk_first_match [where this = loaded_at_0 and hp = "(0, 0)" and vdata = layout, OF _ _ c f t n h]
    by (simp add: loaded_at_0_def po_size_of_def chunkSize_of_def sizes)
  moreover have "map (\<lambda>q. map_option ChunkHeader.magic (cast_ChunkHeader two_matching_chunks q)) [12, 28, 48]
       = [Some 0x58585858, Some 0x544D5247, Some 0x544D5247]"
    by (simp add: fixture_defs scan_defs)
  moreover have "view_bytes [Some (two_matching_chunks, 1)] (Some (0, 44)) 4 = Some [1, 2, 3, 4]"
    by (simp add: view_bytes_def fixture_defs cell_at_def)
  ultimately show ?thesis using t f by simp
qed

subsection \<open>C10: a null result comes with size zero\<close>

text \<open>
  C10: whenever \<^verbatim>\<open>chunk(p_identifier, po_size)\<close> returns the null pointer, because the
  PackFile has no header view or because the scan ended without a match, \<^verbatim>\<open>po_size\<close>
  is zero.
\<close>

theorem chunk_not_found_size_zero:
  "chunk W vdata s this p_identifier = Some (Inr (None, po_size)) \<Longrightarrow> po_size = 0"
  by (auto simp: chunk_def split: option.splits prod.splits dest: chunk_loop_null_size)

theorem chunk_not_found_size_zero_witness:
  "chunk 64 layout [Some (one_chunk_file 0x54414D41 0x544D5247 16 16 [1, 2, 3, 4, 5, 6, 7, 8], 1)] loaded_at_0
       0x58585858
     = Some (Inr (None, 0)) \<and> (0 :: uint32) = 0"
  using chunk_not_found_size_zero
    [where W = 64 and s = "[Some (one_chunk_file 0x54414D41 0x544D5247 16 16 [1, 2, 3, 4, 5, 6, 7, 8], 1)]"
       and this = loaded_at_0 and p_identifier = "0x58585858" and po_size = 0 and vdata = layout]
  by (simp add: fixture_defs scan_defs)

end
